theory Spec2Isabelle
  imports Complex_Main "HOL-Library.Word"
begin

section \<open>Data model of \<open>basic.ts\<close>\<close>

text \<open>
  A \<open>Uint8Array\<close> is a list of bytes. The key-like buffer types of
  \<open>SymmetricCryptorKeyType\<close> (\<open>ArrayBuffer\<close>, \<open>DataView\<close>, the typed arrays) are
  all read by the digest through their underlying bytes.
\<close>

type_synonym byte = "8 word"
type_synonym bytes = "byte list"

text \<open>
  A JavaScript \<open>number\<close> as far as \<open>Number.isSafeInteger\<close> and \<open>>= 1\<close> can tell:
  every finite double is a rational.
\<close>

datatype js_number = Finite rat | NaN | PosInfinity | NegInfinity

definition isSafeInteger :: "js_number \<Rightarrow> bool" where
  "isSafeInteger x =
     (case x of
        Finite q \<Rightarrow> of_int \<lfloor>q\<rfloor> = q \<and> \<bar>q\<bar> \<le> 9007199254740991
      | _ \<Rightarrow> False)"

definition number_ge_one :: "js_number \<Rightarrow> bool" where
  "number_ge_one x = (case x of Finite q \<Rightarrow> 1 \<le> q | PosInfinity \<Rightarrow> True | _ \<Rightarrow> False)"

definition number_to_nat :: "js_number \<Rightarrow> nat" where
  "number_to_nat x = (case x of Finite q \<Rightarrow> nat \<lfloor>q\<rfloor> | _ \<Rightarrow> 0)"

text \<open>
  Every \<open>throw\<close> of the source is one constructor, carrying the values that the
  source interpolates into its message:
  \<^item> \<open>RangeError_algorithm a accepted\<close>: RangeError,
    "`a` is not a valid symmetric crypto algorithm! Only accept these values: accepted";
  \<^item> \<open>RangeError_coder c accepted\<close>: RangeError,
    "`c` is not a valid default coder! Only accept these values: accepted";
  \<^item> \<open>ReferenceError_keys\<close>: ReferenceError, "Parameter `keys` is not defined!";
  \<^item> \<open>TypeError_times t\<close>: TypeError,
    "`t` (parameter `options.times`) is not a number which is integer, safe, and >= 1!";
  \<^item> \<open>Error_unsupported n\<close>: Error, "Unsupported algorithm `n`!";
  \<^item> \<open>Error_no_keys\<close>: Error, "Crypto keys are somehow not exist! Please submit a bug report.";
  \<^item> \<open>TypeError_undefined\<close>: the TypeError of the runtime for a method call on \<open>undefined\<close>;
  \<^item> \<open>External name\<close>: an exception raised by a collaborator (Web Crypto, Buffer,
    a custom coder, Deno's file system), named by \<open>name\<close>.
\<close>

datatype error =
    RangeError_algorithm string "string list"
  | RangeError_coder string "string list"
  | ReferenceError_keys
  | TypeError_times js_number
  | Error_unsupported string
  | Error_no_keys
  | TypeError_undefined
  | External string

definition algorithms :: "string list" where
  "algorithms = [''AES-CBC'', ''AES-CTR'', ''AES-GCM'']"

definition cipherTextCodersDefault :: "string list" where
  "cipherTextCodersDefault = [''base64'', ''base64url'']"

datatype key_type = KeyString string | KeyBuffer bytes

text \<open>
  The argument of \<open>SymmetricCryptoService.create\<close>: a bare key, or a
  \<open>SymmetricCryptorKeyInput\<close> object with its optional \<open>algorithm\<close>.
\<close>

datatype key_input = Bare key_type | KeyInput "string option" key_type

text \<open>A \<open>CryptoKey\<close>: its \<open>algorithm.name\<close> and the raw material it was imported from.\<close>

record crypto_key =
  key_algorithm_name :: string
  key_material :: bytes

text \<open>
  \<open>AesCbcParams\<close> and \<open>AesGcmParams\<close> are \<open>{name, iv}\<close>; \<open>AesCtrParams\<close> is
  \<open>{name, counter, length}\<close>.
\<close>

datatype params =
    AesIvParams string bytes
  | AesCtrParams string bytes nat

section \<open>The collaborators and the world\<close>

text \<open>
  The world holds what the program changes outside its own objects, and what the runtime
  decides: the random source (\<open>crypto.getRandomValues\<close> reads the next bytes of
  \<open>entropy\<close>), a count of the key derivations started so far (calls of
  \<open>crypto.subtle.digest\<close> by \<open>SymmetricCryptoService.create\<close>), and the time at which
  each of them settles, by its number (\<open>settles_at\<close>).
\<close>

record world =
  entropy :: "nat \<Rightarrow> byte"
  drawn :: nat
  derivations :: nat
  settles_at :: "nat \<Rightarrow> nat"

definition getRandomValues :: "nat \<Rightarrow> world \<Rightarrow> bytes \<times> world" where
  "getRandomValues n w = (map (entropy w) [drawn w ..< drawn w + n], w\<lparr>drawn := drawn w + n\<rparr>)"

text \<open>A file system for \<open>Deno.readFile\<close> and \<open>Deno.writeFile\<close>: paths to contents.\<close>

type_synonym file_system = "string \<rightharpoonup> bytes"

record write_options =
  wo_append :: "bool option"
  wo_create :: "bool option"
  wo_createNew :: "bool option"
  wo_mode :: "nat option"

text \<open>
  The external functions the source calls, each of them fallible:
  \<open>crypto.subtle.digest("SHA-256", _)\<close>, \<open>crypto.subtle.importKey("raw", _, {name}, false,
  ["decrypt", "encrypt"])\<close>, \<open>crypto.subtle.encrypt\<close>, \<open>crypto.subtle.decrypt\<close>,
  \<open>TextEncoder.encode\<close>, \<open>TextDecoder.decode\<close>, \<open>Buffer.from(data, coder)\<close>,
  \<open>Buffer.from(data).toString(coder)\<close>, \<open>Deno.readFile\<close>, \<open>Deno.writeFile\<close>.
\<close>

record env =
  subtle_digest :: "bytes \<Rightarrow> error + bytes"
  subtle_importKey :: "bytes \<Rightarrow> string \<Rightarrow> error + crypto_key"
  subtle_encrypt :: "params \<Rightarrow> crypto_key \<Rightarrow> bytes \<Rightarrow> error + bytes"
  subtle_decrypt :: "params \<Rightarrow> crypto_key \<Rightarrow> bytes \<Rightarrow> error + bytes"
  text_encode :: "string \<Rightarrow> bytes"
  text_decode :: "bytes \<Rightarrow> string"
  buffer_from :: "string \<Rightarrow> string \<Rightarrow> error + bytes"
  buffer_toString :: "bytes \<Rightarrow> string \<Rightarrow> error + string"
  deno_readFile :: "string \<Rightarrow> file_system \<Rightarrow> error + bytes"
  deno_writeFile :: "string \<Rightarrow> bytes \<Rightarrow> write_options \<Rightarrow> file_system \<Rightarrow> (error + unit) \<times> file_system"

section \<open>\<open>SymmetricCryptoService\<close>: one cipher stage\<close>

text \<open>
  The two closures \<open>#resolveDecryptParameters\<close> and \<open>#resolveEncryptParameters\<close> that
  the constructor installs are one of two pairs; \<open>paramsShape\<close> records which.
\<close>

datatype params_shape = IvShape | CounterShape

record service =
  algorithmName :: string
  cryptoKey :: crypto_key
  tokenLength :: nat
  paramsShape :: params_shape

definition SymmetricCryptoService_new :: "crypto_key \<Rightarrow> error + service" where
  "SymmetricCryptoService_new k =
     (let name = key_algorithm_name k in
      if name = ''AES-CBC'' \<or> name = ''AES-GCM'' then
        Inr \<lparr>algorithmName = name, cryptoKey = k,
             tokenLength = (if name = ''AES-GCM'' then 12 else 16), paramsShape = IvShape\<rparr>
      else if name = ''AES-CTR'' then
        Inr \<lparr>algorithmName = name, cryptoKey = k, tokenLength = 16, paramsShape = CounterShape\<rparr>
      else Inl (Error_unsupported name))"

text \<open>\<open>data.slice(start)\<close> and \<open>data.slice(start, end)\<close> for indices that are not negative.\<close>

definition slice :: "bytes \<Rightarrow> nat \<Rightarrow> nat option \<Rightarrow> bytes" where
  "slice data start end = (case end of None \<Rightarrow> drop start data | Some e \<Rightarrow> drop start (take e data))"

definition resolveDecryptParameters :: "service \<Rightarrow> bytes \<Rightarrow> params" where
  "resolveDecryptParameters svc data =
     (case paramsShape svc of
        IvShape \<Rightarrow> AesIvParams (algorithmName svc) (slice data 0 (Some (tokenLength svc)))
      | CounterShape \<Rightarrow> AesCtrParams (algorithmName svc) (slice data 0 (Some (tokenLength svc))) 64)"

definition resolveEncryptParameters :: "service \<Rightarrow> bytes \<Rightarrow> params" where
  "resolveEncryptParameters svc token =
     (case paramsShape svc of
        IvShape \<Rightarrow> AesIvParams (algorithmName svc) token
      | CounterShape \<Rightarrow> AesCtrParams (algorithmName svc) token 64)"

definition SymmetricCryptoService_decrypt :: "env \<Rightarrow> service \<Rightarrow> bytes \<Rightarrow> error + bytes" where
  "SymmetricCryptoService_decrypt E svc data =
     subtle_decrypt E (resolveDecryptParameters svc data) (cryptoKey svc)
       (slice data (tokenLength svc) None)"

definition SymmetricCryptoService_encrypt ::
  "env \<Rightarrow> service \<Rightarrow> bytes \<Rightarrow> world \<Rightarrow> (error + bytes) \<times> world" where
  "SymmetricCryptoService_encrypt E svc data w =
     (let (token, w') = getRandomValues (tokenLength svc) w in
      case subtle_encrypt E (resolveEncryptParameters svc token) (cryptoKey svc) data of
        Inl e \<Rightarrow> (Inl e, w')
      | Inr c \<Rightarrow> (Inr (token @ c), w'))"

text \<open>
  A promise, by how it settles: rejected already when the call that made it returns, or
  settled later, at some time, as rejected (\<open>Inl\<close>) or fulfilled (\<open>Inr\<close>).
\<close>

datatype 'a promise = RejectedAtCall error | SettledLater nat "error + 'a"

text \<open>
  \<open>create\<close> is an \<open>async\<close> function: its \<open>throw\<close> rejects the promise it returns. The
  check of the algorithm tag comes before the first \<open>await\<close>, so its \<open>throw\<close> rejects the
  promise at the call. The digest is started only when the tag has passed the check; what
  follows it (the digest, the import and the constructor of the stage) settles the
  promise later, at the time the world gives for this derivation.
\<close>

definition SymmetricCryptoService_create ::
  "env \<Rightarrow> key_input \<Rightarrow> world \<Rightarrow> service promise \<times> world" where
  "SymmetricCryptoService_create E input w =
     (case (case input of
              Bare k \<Rightarrow> Inr (''AES-CBC'', k)
            | KeyInput None k \<Rightarrow> Inr (''AES-CBC'', k)
            | KeyInput (Some a) k \<Rightarrow>
                if a \<notin> set algorithms then Inl (RangeError_algorithm a algorithms)
                else Inr (a, k)) of
        Inl e \<Rightarrow> (RejectedAtCall e, w)
      | Inr (algorithm, key) \<Rightarrow>
          (let w' = w\<lparr>derivations := derivations w + 1\<rparr> in
           (SettledLater (settles_at w (derivations w))
              (case subtle_digest E
                      (case key of KeyString s \<Rightarrow> text_encode E s | KeyBuffer b \<Rightarrow> b) of
                 Inl e \<Rightarrow> Inl e
               | Inr d \<Rightarrow>
                   (case subtle_importKey E d algorithm of
                      Inl e \<Rightarrow> Inl e
                    | Inr ck \<Rightarrow> SymmetricCryptoService_new ck)), w')))"

section \<open>Promises and the text coder\<close>

text \<open>
  \<open>Promise.all\<close> fulfils with all the values in order when every promise fulfils, and
  rejects with the rejection that happens first otherwise. A promise that is rejected at
  the call is rejected before any other settles, and of several such the first in the list
  is the first to be seen. Of the promises rejected later, the first is the one with the
  least settling time (times of different derivations differ; of equal times the model
  takes the first in the list).
\<close>

fun first_rejected_at_call :: "'a promise list \<Rightarrow> error option" where
  "first_rejected_at_call [] = None"
| "first_rejected_at_call (RejectedAtCall e # ps) = Some e"
| "first_rejected_at_call (SettledLater t r # ps) = first_rejected_at_call ps"

fun earliest_rejection :: "'a promise list \<Rightarrow> (nat \<times> error) option" where
  "earliest_rejection [] = None"
| "earliest_rejection (RejectedAtCall e # ps) = earliest_rejection ps"
| "earliest_rejection (SettledLater t (Inr x) # ps) = earliest_rejection ps"
| "earliest_rejection (SettledLater t (Inl e) # ps) =
     (case earliest_rejection ps of
        None \<Rightarrow> Some (t, e)
      | Some (t', e') \<Rightarrow> if t' < t then Some (t', e') else Some (t, e))"

fun fulfilled_values :: "'a promise list \<Rightarrow> 'a list" where
  "fulfilled_values [] = []"
| "fulfilled_values (SettledLater t (Inr x) # ps) = x # fulfilled_values ps"
| "fulfilled_values (p # ps) = fulfilled_values ps"

definition Promise_all :: "'a promise list \<Rightarrow> error + 'a list" where
  "Promise_all ps =
     (case first_rejected_at_call ps of
        Some e \<Rightarrow> Inl e
      | None \<Rightarrow>
          (case earliest_rejection ps of
             Some (t, e) \<Rightarrow> Inl e
           | None \<Rightarrow> Inr (fulfilled_values ps)))"

text \<open>\<open>keys.map(key => SymmetricCryptoService.create(key))\<close>, left to right.\<close>

fun map_create ::
  "env \<Rightarrow> key_input list \<Rightarrow> world \<Rightarrow> service promise list \<times> world" where
  "map_create E [] w = ([], w)"
| "map_create E (k # ks) w =
     (let (p, w1) = SymmetricCryptoService_create E k w;
          (ps, w2) = map_create E ks w1
      in (p # ps, w2))"

text \<open>\<open>toLowerCase\<close> on the letters \<open>A\<close> to \<open>Z\<close>; every other character is kept.\<close>

definition toLowerCase :: "string \<Rightarrow> string" where
  "toLowerCase s =
     map (\<lambda>c. case map_of (zip ''ABCDEFGHIJKLMNOPQRSTUVWXYZ'' ''abcdefghijklmnopqrstuvwxyz'') c of
                None \<Rightarrow> c
              | Some l \<Rightarrow> l) s"

datatype coder_option =
    CoderName string
  | CoderPair "string \<Rightarrow> error + bytes" "bytes \<Rightarrow> error + string"

record coder =
  decoder :: "string \<Rightarrow> error + bytes"
  encoder :: "bytes \<Rightarrow> error + string"

definition resolveCipherTextCoder :: "env \<Rightarrow> coder_option option \<Rightarrow> error + coder" where
  "resolveCipherTextCoder E c =
     (case (case c of None \<Rightarrow> CoderName ''base64'' | Some x \<Rightarrow> x) of
        CoderName n \<Rightarrow>
          if toLowerCase n \<in> set cipherTextCodersDefault then
            Inr \<lparr>decoder = (\<lambda>data. buffer_from E data n),
                 encoder = (\<lambda>data. buffer_toString E data n)\<rparr>
          else Inl (RangeError_coder n cipherTextCodersDefault)
      | CoderPair d e \<Rightarrow> Inr \<lparr>decoder = d, encoder = e\<rparr>)"

section \<open>\<open>SymmetricCryptorBasic\<close>\<close>

text \<open>
  The private fields of an instance. An entry of \<open>#cryptoKeysStorage\<close> is \<open>None\<close>
  where the array holds \<open>undefined\<close> (what \<open>result[0]\<close> is on an empty \<open>result\<close>).
\<close>

record cryptor =
  cipherTextDecoder :: "string \<Rightarrow> error + bytes"
  cipherTextEncoder :: "bytes \<Rightarrow> error + string"
  cryptoKeysStorage :: "service option list option"
  keyIsSingle :: bool
  keyOnSingleRepeats :: nat
  keysToCryptoKeysFail :: "error option"
  keysToCryptoKeysPromise :: "(error + service list) option"

datatype keys_argument = SingleKey key_input | KeyList "key_input list"

record options =
  opt_cipherTextCoder :: "coder_option option"
  opt_times :: "js_number option"

definition SymmetricCryptorBasic_new ::
  "env \<Rightarrow> keys_argument \<Rightarrow> options \<Rightarrow> world \<Rightarrow> (error + cryptor) \<times> world" where
  "SymmetricCryptorBasic_new E keys opts w =
     (case resolveCipherTextCoder E (opt_cipherTextCoder opts) of
        Inl e \<Rightarrow> (Inl e, w)
      | Inr cipherTextCoder \<Rightarrow>
          (case keys of
             KeyList ks \<Rightarrow>
               if length ks = 0 then (Inl ReferenceError_keys, w)
               else
                 (let (ps, w') = map_create E ks w in
                  (Inr \<lparr>cipherTextDecoder = decoder cipherTextCoder,
                        cipherTextEncoder = encoder cipherTextCoder,
                        cryptoKeysStorage = None,
                        keyIsSingle = False,
                        keyOnSingleRepeats = 1,
                        keysToCryptoKeysFail = None,
                        keysToCryptoKeysPromise = Some (Promise_all ps)\<rparr>, w'))
           | SingleKey k \<Rightarrow>
               (case (case opt_times opts of
                        None \<Rightarrow> Inr 1
                      | Some t \<Rightarrow>
                          if \<not> (isSafeInteger t \<and> number_ge_one t) then Inl (TypeError_times t)
                          else Inr (number_to_nat t)) of
                  Inl e \<Rightarrow> (Inl e, w)
                | Inr repeats \<Rightarrow>
                    (let (p, w') = SymmetricCryptoService_create E k w in
                     (Inr \<lparr>cipherTextDecoder = decoder cipherTextCoder,
                           cipherTextEncoder = encoder cipherTextCoder,
                           cryptoKeysStorage = None,
                           keyIsSingle = True,
                           keyOnSingleRepeats = repeats,
                           keysToCryptoKeysFail = None,
                           keysToCryptoKeysPromise = Some (Promise_all [p])\<rparr>, w')))))"

text \<open>
  The loop \<open>for (index = 0; index < repeats; index += 1) storage.push(x)\<close>, by the
  number of rounds left.
\<close>

fun push_repeats :: "nat \<Rightarrow> 'a \<Rightarrow> 'a list \<Rightarrow> 'a list" where
  "push_repeats 0 x storage = storage"
| "push_repeats (Suc n) x storage = push_repeats n x (storage @ [x])"

definition first_of :: "'a list \<Rightarrow> 'a option" where
  "first_of result = (case result of [] \<Rightarrow> None | r # _ \<Rightarrow> Some r)"

definition ready :: "cryptor \<Rightarrow> (error + unit) \<times> cryptor" where
  "ready s =
     (let s1 =
        (case keysToCryptoKeysPromise s of
           None \<Rightarrow> s
         | Some promise \<Rightarrow>
             (case promise of
                Inr result \<Rightarrow>
                  s\<lparr>cryptoKeysStorage :=
                      Some (if keyIsSingle s
                            then push_repeats (keyOnSingleRepeats s) (first_of result) []
                            else [] @ map Some result)\<rparr>
              | Inl e \<Rightarrow> s\<lparr>keysToCryptoKeysFail := Some e\<rparr>)
             \<lparr>keysToCryptoKeysPromise := None\<rparr>)
      in case keysToCryptoKeysFail s1 of
           Some e \<Rightarrow> (Inl e, s1)
         | None \<Rightarrow> (Inr (), s1))"

definition getCryptoKeys :: "cryptor \<Rightarrow> (error + service option list) \<times> cryptor" where
  "getCryptoKeys s =
     (case ready s of
        (Inl e, s') \<Rightarrow> (Inl e, s')
      | (Inr _, s') \<Rightarrow>
          (case cryptoKeysStorage s' of
             None \<Rightarrow> (Inl Error_no_keys, s')
           | Some storage \<Rightarrow>
               if length storage = 0 then (Inl Error_no_keys, s') else (Inr storage, s')))"

text \<open>The body of \<open>for (const cryptoKey of ...) bin = await cryptoKey.decrypt(bin)\<close>.\<close>

fun decrypt_loop :: "env \<Rightarrow> service option list \<Rightarrow> bytes \<Rightarrow> error + bytes" where
  "decrypt_loop E [] bin = Inr bin"
| "decrypt_loop E (key # rest) bin =
     (case key of
        None \<Rightarrow> Inl TypeError_undefined
      | Some svc \<Rightarrow>
          (case SymmetricCryptoService_decrypt E svc bin of
             Inl e \<Rightarrow> Inl e
           | Inr bin' \<Rightarrow> decrypt_loop E rest bin'))"

fun encrypt_loop ::
  "env \<Rightarrow> service option list \<Rightarrow> bytes \<Rightarrow> world \<Rightarrow> (error + bytes) \<times> world" where
  "encrypt_loop E [] bin w = (Inr bin, w)"
| "encrypt_loop E (key # rest) bin w =
     (case key of
        None \<Rightarrow> (Inl TypeError_undefined, w)
      | Some svc \<Rightarrow>
          (case SymmetricCryptoService_encrypt E svc bin w of
             (Inl e, w') \<Rightarrow> (Inl e, w')
           | (Inr bin', w') \<Rightarrow> encrypt_loop E rest bin' w'))"

text \<open>The private \<open>#decrypt\<close> and \<open>#encrypt\<close>; \<open>toReversed()\<close> is \<open>rev\<close>.\<close>

definition decrypt_private :: "env \<Rightarrow> cryptor \<Rightarrow> bytes \<Rightarrow> (error + bytes) \<times> cryptor" where
  "decrypt_private E s data =
     (case getCryptoKeys s of
        (Inl e, s') \<Rightarrow> (Inl e, s')
      | (Inr cryptoKeys, s') \<Rightarrow>
          if length data = 0 then (Inr data, s')
          else (decrypt_loop E (rev cryptoKeys) data, s'))"

definition encrypt_private ::
  "env \<Rightarrow> cryptor \<Rightarrow> bytes \<Rightarrow> world \<Rightarrow> (error + bytes) \<times> cryptor \<times> world" where
  "encrypt_private E s data w =
     (case getCryptoKeys s of
        (Inl e, s') \<Rightarrow> (Inl e, s', w)
      | (Inr cryptoKeys, s') \<Rightarrow>
          (case encrypt_loop E cryptoKeys data w of (r, w') \<Rightarrow> (r, s', w')))"

text \<open>
  The public \<open>decrypt\<close> and \<open>encrypt\<close> branch on \<open>typeof data === "string"\<close>; each
  branch is one function here.
\<close>

definition decrypt_string :: "env \<Rightarrow> cryptor \<Rightarrow> string \<Rightarrow> (error + string) \<times> cryptor" where
  "decrypt_string E s data =
     (case cipherTextDecoder s data of
        Inl e \<Rightarrow> (Inl e, s)
      | Inr decoded \<Rightarrow>
          (case decrypt_private E s decoded of
             (Inl e, s') \<Rightarrow> (Inl e, s')
           | (Inr plain, s') \<Rightarrow> (Inr (text_decode E plain), s')))"

definition decrypt_bytes :: "env \<Rightarrow> cryptor \<Rightarrow> bytes \<Rightarrow> (error + bytes) \<times> cryptor" where
  "decrypt_bytes E s data = decrypt_private E s data"

definition encrypt_string ::
  "env \<Rightarrow> cryptor \<Rightarrow> string \<Rightarrow> world \<Rightarrow> (error + string) \<times> cryptor \<times> world" where
  "encrypt_string E s data w =
     (case encrypt_private E s (text_encode E data) w of
        (Inl e, s', w') \<Rightarrow> (Inl e, s', w')
      | (Inr encrypted, s', w') \<Rightarrow> (cipherTextEncoder s' encrypted, s', w'))"

definition encrypt_bytes ::
  "env \<Rightarrow> cryptor \<Rightarrow> bytes \<Rightarrow> world \<Rightarrow> (error + bytes) \<times> cryptor \<times> world" where
  "encrypt_bytes E s data w = encrypt_private E s data w"

section \<open>The file operations of \<open>standard.ts\<close> and of \<open>SymmetricCryptorEnhance\<close>\<close>

definition create_false :: write_options where
  "create_false = \<lparr>wo_append = None, wo_create = Some False, wo_createNew = None, wo_mode = None\<rparr>"

text \<open>\<open>{...options, append: false}\<close>, where \<open>options\<close> may be \<open>undefined\<close>.\<close>

definition append_false :: "write_options option \<Rightarrow> write_options" where
  "append_false opts =
     (case opts of
        None \<Rightarrow> \<lparr>wo_append = Some False, wo_create = None, wo_createNew = None, wo_mode = None\<rparr>
      | Some given \<Rightarrow> given\<lparr>wo_append := Some False\<rparr>)"

definition SymmetricCryptor_decryptFileInPlace ::
  "env \<Rightarrow> cryptor \<Rightarrow> string \<Rightarrow> file_system \<Rightarrow> (error + unit) \<times> cryptor \<times> file_system" where
  "SymmetricCryptor_decryptFileInPlace E s filePath fs =
     (case deno_readFile E filePath fs of
        Inl e \<Rightarrow> (Inl e, s, fs)
      | Inr context \<Rightarrow>
          (case decrypt_bytes E s context of
             (Inl e, s') \<Rightarrow> (Inl e, s', fs)
           | (Inr decrypted, s') \<Rightarrow>
               (case deno_writeFile E filePath decrypted create_false fs of
                  (r, fs') \<Rightarrow> (r, s', fs'))))"

definition SymmetricCryptor_encryptFileInPlace ::
  "env \<Rightarrow> cryptor \<Rightarrow> string \<Rightarrow> world \<Rightarrow> file_system \<Rightarrow>
     (error + unit) \<times> cryptor \<times> world \<times> file_system" where
  "SymmetricCryptor_encryptFileInPlace E s filePath w fs =
     (case deno_readFile E filePath fs of
        Inl e \<Rightarrow> (Inl e, s, w, fs)
      | Inr context \<Rightarrow>
          (case encrypt_bytes E s context w of
             (Inl e, s', w') \<Rightarrow> (Inl e, s', w', fs)
           | (Inr encrypted, s', w') \<Rightarrow>
               (case deno_writeFile E filePath encrypted create_false fs of
                  (r, fs') \<Rightarrow> (r, s', w', fs'))))"

definition SymmetricCryptor_writeEncryptedFile ::
  "env \<Rightarrow> cryptor \<Rightarrow> string \<Rightarrow> bytes \<Rightarrow> write_options option \<Rightarrow> world \<Rightarrow> file_system \<Rightarrow>
     (error + unit) \<times> cryptor \<times> world \<times> file_system" where
  "SymmetricCryptor_writeEncryptedFile E s filePath data opts w fs =
     (case encrypt_bytes E s data w of
        (Inl e, s', w') \<Rightarrow> (Inl e, s', w', fs)
      | (Inr encrypted, s', w') \<Rightarrow>
          (case deno_writeFile E filePath encrypted (append_false opts) fs of
             (r, fs') \<Rightarrow> (r, s', w', fs')))"

text \<open>
  \<open>SymmetricCryptorEnhance\<close> writes the same three as one nested expression,
  \<open>Deno.writeFile(filePath, await this.decrypt(await Deno.readFile(filePath)), ...)\<close>:
  the arguments are evaluated, innermost \<open>await\<close> first, before \<open>Deno.writeFile\<close> is
  called.
\<close>

definition SymmetricCryptorEnhance_decryptFileInPlace ::
  "env \<Rightarrow> cryptor \<Rightarrow> string \<Rightarrow> file_system \<Rightarrow> (error + unit) \<times> cryptor \<times> file_system" where
  "SymmetricCryptorEnhance_decryptFileInPlace E s filePath fs =
     (case (case deno_readFile E filePath fs of
              Inl e \<Rightarrow> (Inl e, s)
            | Inr context \<Rightarrow> decrypt_bytes E s context) of
        (Inl e, s') \<Rightarrow> (Inl e, s', fs)
      | (Inr argument, s') \<Rightarrow>
          (case deno_writeFile E filePath argument create_false fs of (r, fs') \<Rightarrow> (r, s', fs')))"

definition SymmetricCryptorEnhance_encryptFileInPlace ::
  "env \<Rightarrow> cryptor \<Rightarrow> string \<Rightarrow> world \<Rightarrow> file_system \<Rightarrow>
     (error + unit) \<times> cryptor \<times> world \<times> file_system" where
  "SymmetricCryptorEnhance_encryptFileInPlace E s filePath w fs =
     (case (case deno_readFile E filePath fs of
              Inl e \<Rightarrow> (Inl e, s, w)
            | Inr context \<Rightarrow> encrypt_bytes E s context w) of
        (Inl e, s', w') \<Rightarrow> (Inl e, s', w', fs)
      | (Inr argument, s', w') \<Rightarrow>
          (case deno_writeFile E filePath argument create_false fs of
             (r, fs') \<Rightarrow> (r, s', w', fs')))"

definition SymmetricCryptorEnhance_writeEncryptedFile ::
  "env \<Rightarrow> cryptor \<Rightarrow> string \<Rightarrow> bytes \<Rightarrow> write_options option \<Rightarrow> world \<Rightarrow> file_system \<Rightarrow>
     (error + unit) \<times> cryptor \<times> world \<times> file_system" where
  "SymmetricCryptorEnhance_writeEncryptedFile E s filePath data opts w fs =
     (case encrypt_bytes E s data w of
        (Inl e, s', w') \<Rightarrow> (Inl e, s', w', fs)
      | (Inr argument, s', w') \<Rightarrow>
          (case deno_writeFile E filePath argument (append_false opts) fs of
             (r, fs') \<Rightarrow> (r, s', w', fs')))"

section \<open>Calls on one instance\<close>

text \<open>
  The public asynchronous methods of an instance, one after the other: each call runs to
  its end before the next one starts.
\<close>

datatype call =
    CallReady
  | CallEncryptBytes bytes
  | CallDecryptBytes bytes
  | CallEncryptString string
  | CallDecryptString string

datatype reply = ReplyVoid | ReplyBytes bytes | ReplyString string

fun perform :: "env \<Rightarrow> call \<Rightarrow> cryptor \<times> world \<Rightarrow> (error + reply) \<times> cryptor \<times> world" where
  "perform E CallReady (s, w) =
     (case ready s of (r, s') \<Rightarrow> (map_sum id (\<lambda>_. ReplyVoid) r, s', w))"
| "perform E (CallEncryptBytes data) (s, w) =
     (case encrypt_bytes E s data w of (r, s', w') \<Rightarrow> (map_sum id ReplyBytes r, s', w'))"
| "perform E (CallDecryptBytes data) (s, w) =
     (case decrypt_bytes E s data of (r, s') \<Rightarrow> (map_sum id ReplyBytes r, s', w))"
| "perform E (CallEncryptString data) (s, w) =
     (case encrypt_string E s data w of (r, s', w') \<Rightarrow> (map_sum id ReplyString r, s', w'))"
| "perform E (CallDecryptString data) (s, w) =
     (case decrypt_string E s data of (r, s') \<Rightarrow> (map_sum id ReplyString r, s', w))"

fun run_calls :: "env \<Rightarrow> call list \<Rightarrow> cryptor \<times> world \<Rightarrow> cryptor \<times> world" where
  "run_calls E [] sw = sw"
| "run_calls E (c # cs) sw = run_calls E cs (snd (perform E c sw))"

section \<open>What the collaborators are relied on for\<close>

text \<open>
  Parameters the Web Crypto primitives accept: a 16-byte IV for AES-CBC, a 12-byte IV for
  AES-GCM, a 16-byte counter block with a 64-bit counter for AES-CTR.
\<close>

definition params_name :: "params \<Rightarrow> string" where
  "params_name p = (case p of AesIvParams n _ \<Rightarrow> n | AesCtrParams n _ _ \<Rightarrow> n)"

definition valid_params :: "params \<Rightarrow> bool" where
  "valid_params p =
     (case p of
        AesIvParams n iv \<Rightarrow> (n = ''AES-CBC'' \<and> length iv = 16) \<or> (n = ''AES-GCM'' \<and> length iv = 12)
      | AesCtrParams n c l \<Rightarrow> n = ''AES-CTR'' \<and> length c = 16 \<and> l = 64)"

text \<open>
  The cipher primitive under such parameters, with a key of the same algorithm: encryption
  succeeds, and decryption of its output under the same parameters and key gives the
  input back.
\<close>

definition cipher_contract :: "env \<Rightarrow> bool" where
  "cipher_contract E =
     (\<forall>p k d. valid_params p \<and> key_algorithm_name k = params_name p \<longrightarrow>
        (\<exists>c. subtle_encrypt E p k d = Inr c \<and> subtle_decrypt E p k c = Inr d))"

text \<open>The output of an AES mode is never shorter than its input.\<close>

definition cipher_expanding :: "env \<Rightarrow> bool" where
  "cipher_expanding E =
     (\<forall>p k d c. subtle_encrypt E p k d = Inr c \<longrightarrow> length d \<le> length c)"

text \<open>
  Key derivation: the SHA-256 digest has 32 bytes, and a 32-byte raw key imports under
  each of the three algorithms, as a key of that algorithm.
\<close>

definition derivation_contract :: "env \<Rightarrow> bool" where
  "derivation_contract E =
     ((\<forall>b. \<exists>d. subtle_digest E b = Inr d \<and> length d = 32) \<and>
      (\<forall>d a. length d = 32 \<and> a \<in> set algorithms \<longrightarrow>
         (\<exists>k. subtle_importKey E d a = Inr k \<and> key_algorithm_name k = a)))"

section \<open>The specification's notions\<close>

text \<open>
  A valid KeySpec: the algorithm tag, if present, is one of the three. A valid ChainSpec:
  one valid KeySpec with \<open>times\<close> absent or a safe integer \<open>\<ge> 1\<close>, or a non-empty list
  of valid KeySpecs; the coder is the default, one of the two built-in names (in any
  letter case), or a custom pair.
\<close>

definition valid_KeySpec :: "key_input \<Rightarrow> bool" where
  "valid_KeySpec k =
     (case k of
        Bare _ \<Rightarrow> True
      | KeyInput None _ \<Rightarrow> True
      | KeyInput (Some a) _ \<Rightarrow> a = ''AES-CBC'' \<or> a = ''AES-CTR'' \<or> a = ''AES-GCM'')"

definition valid_coder :: "coder_option option \<Rightarrow> bool" where
  "valid_coder c =
     (case c of
        None \<Rightarrow> True
      | Some (CoderPair _ _) \<Rightarrow> True
      | Some (CoderName n) \<Rightarrow> toLowerCase n = ''base64'' \<or> toLowerCase n = ''base64url'')"

definition valid_times :: "js_number option \<Rightarrow> bool" where
  "valid_times t =
     (case t of
        None \<Rightarrow> True
      | Some (Finite q) \<Rightarrow> of_int \<lfloor>q\<rfloor> = q \<and> 1 \<le> q \<and> q \<le> 9007199254740991
      | Some _ \<Rightarrow> False)"

definition valid_ChainSpec :: "keys_argument \<Rightarrow> options \<Rightarrow> bool" where
  "valid_ChainSpec keys opts =
     (valid_coder (opt_cipherTextCoder opts) \<and>
      (case keys of
         SingleKey k \<Rightarrow> valid_KeySpec k \<and> valid_times (opt_times opts)
       | KeyList ks \<Rightarrow> ks \<noteq> [] \<and> list_all valid_KeySpec ks))"

text \<open>
  The stage list of the specification: the single stage \<open>times\<close> times, or one stage
  per list entry.
\<close>

definition stage_list :: "cryptor \<Rightarrow> service list \<Rightarrow> service option list" where
  "stage_list s result =
     (if keyIsSingle s then replicate (keyOnSingleRepeats s) (first_of result)
      else map Some result)"

text \<open>
  The ordering of the specification, by stage index: encryption applies stages
  \<open>0, 1, ..., n - 1\<close>, decryption applies stages \<open>n - 1, ..., 1, 0\<close>.
\<close>

definition stage_encrypt ::
  "env \<Rightarrow> service option \<Rightarrow> bytes \<Rightarrow> world \<Rightarrow> (error + bytes) \<times> world" where
  "stage_encrypt E stage bin w =
     (case stage of
        None \<Rightarrow> (Inl TypeError_undefined, w)
      | Some svc \<Rightarrow> SymmetricCryptoService_encrypt E svc bin w)"

definition stage_decrypt :: "env \<Rightarrow> service option \<Rightarrow> bytes \<Rightarrow> error + bytes" where
  "stage_decrypt E stage bin =
     (case stage of
        None \<Rightarrow> Inl TypeError_undefined
      | Some svc \<Rightarrow> SymmetricCryptoService_decrypt E svc bin)"

fun spec_encrypt_upto ::
  "env \<Rightarrow> service option list \<Rightarrow> nat \<Rightarrow> bytes \<Rightarrow> world \<Rightarrow> (error + bytes) \<times> world" where
  "spec_encrypt_upto E stages 0 bin w = (Inr bin, w)"
| "spec_encrypt_upto E stages (Suc i) bin w =
     (case spec_encrypt_upto E stages i bin w of
        (Inl e, w') \<Rightarrow> (Inl e, w')
      | (Inr bin', w') \<Rightarrow> stage_encrypt E (stages ! i) bin' w')"

fun spec_decrypt_from :: "env \<Rightarrow> service option list \<Rightarrow> nat \<Rightarrow> bytes \<Rightarrow> error + bytes" where
  "spec_decrypt_from E stages 0 bin = Inr bin"
| "spec_decrypt_from E stages (Suc i) bin =
     (case stage_decrypt E (stages ! i) bin of
        Inl e \<Rightarrow> Inl e
      | Inr bin' \<Rightarrow> spec_decrypt_from E stages i bin')"

text \<open>
  The blob layout of the specification: the random value has \<open>nonceLength\<close> bytes, 16
  for CBC and CTR and 12 for GCM; it is the IV for CBC and GCM, and the initial counter
  block, with bit length 64, for CTR.
\<close>

definition nonceLength :: "string \<Rightarrow> nat" where
  "nonceLength a =
     (if a = ''AES-CBC'' then 16 else if a = ''AES-CTR'' then 16
      else if a = ''AES-GCM'' then 12 else 0)"

definition spec_params :: "string \<Rightarrow> bytes \<Rightarrow> params" where
  "spec_params a prefix =
     (if a = ''AES-CTR'' then AesCtrParams a prefix 64 else AesIvParams a prefix)"

text \<open>What the constructor of a stage establishes, and nothing changes afterwards.\<close>

definition wf_service :: "service \<Rightarrow> bool" where
  "wf_service svc =
     (algorithmName svc \<in> set algorithms \<and>
      key_algorithm_name (cryptoKey svc) = algorithmName svc \<and>
      tokenLength svc = nonceLength (algorithmName svc) \<and>
      paramsShape svc = (if algorithmName svc = ''AES-CTR'' then CounterShape else IvShape))"

text \<open>
  The two settled states of the key derivation of an instance. It has succeeded with a
  stage list when no error is captured and either the promise is still held, fulfilled
  with the services that make up that list, or it has been consumed and the list is in
  \<open>#cryptoKeysStorage\<close>. It has failed with an error when the promise is still held,
  rejected with that error, or it has been consumed and the error is in
  \<open>#keysToCryptoKeysFail\<close>.
\<close>

definition derivation_succeeded :: "cryptor \<Rightarrow> service option list \<Rightarrow> bool" where
  "derivation_succeeded s stages =
     (keysToCryptoKeysFail s = None \<and>
      (case keysToCryptoKeysPromise s of
         Some (Inr result) \<Rightarrow> stage_list s result = stages
       | Some (Inl _) \<Rightarrow> False
       | None \<Rightarrow> cryptoKeysStorage s = Some stages))"

definition derivation_failed :: "cryptor \<Rightarrow> error \<Rightarrow> bool" where
  "derivation_failed s e =
     (case keysToCryptoKeysPromise s of
        Some (Inl e') \<Rightarrow> e' = e
      | Some (Inr _) \<Rightarrow> False
      | None \<Rightarrow> keysToCryptoKeysFail s = Some e)"

text \<open>
  A call whose own text decoding succeeds: \<open>decrypt(string)\<close> runs the coder's decoder on
  its argument before anything else.
\<close>

definition decodable :: "cryptor \<Rightarrow> call \<Rightarrow> bool" where
  "decodable s c =
     (case c of CallDecryptString t \<Rightarrow> \<not> isl (cipherTextDecoder s t) | _ \<Rightarrow> True)"

section \<open>A small environment to run the model in\<close>

text \<open>
  A stand-in for the collaborators: the digest pads or cuts to 32 bytes, the cipher puts
  one marker byte in front and refuses to decrypt what does not start with it, the coder
  is the identity on character codes, and the file system is the map itself.
\<close>

definition demo_decrypt :: "bytes \<Rightarrow> error + bytes" where
  "demo_decrypt c = (case c of [] \<Rightarrow> Inl (External ''OperationError'')
     | b # d \<Rightarrow> if b = 1 then Inr d else Inl (External ''OperationError''))"

definition demo_write ::
  "string \<Rightarrow> bytes \<Rightarrow> write_options \<Rightarrow> file_system \<Rightarrow> (error + unit) \<times> file_system" where
  "demo_write path data opts fs =
     (if wo_create opts = Some False \<and> fs path = None then (Inl (External ''NotFound''), fs)
      else (Inr (), fs(path \<mapsto> data)))"

definition demo_env :: env where
  "demo_env =
     \<lparr>subtle_digest = (\<lambda>b. Inr (take 32 (b @ replicate 32 0))),
      subtle_importKey = (\<lambda>raw a. Inr \<lparr>key_algorithm_name = a, key_material = raw\<rparr>),
      subtle_encrypt = (\<lambda>p k d. Inr (1 # d)),
      subtle_decrypt = (\<lambda>p k c. demo_decrypt c),
      text_encode = map (\<lambda>c. of_nat (of_char c)),
      text_decode = map (\<lambda>b. char_of (unat b)),
      buffer_from = (\<lambda>data coder. Inr (map (\<lambda>c. of_nat (of_char c)) data)),
      buffer_toString = (\<lambda>data coder. Inr (map (\<lambda>b. char_of (unat b)) data)),
      deno_readFile = (\<lambda>path fs. case fs path of None \<Rightarrow> Inl (External ''NotFound'') | Some b \<Rightarrow> Inr b),
      deno_writeFile = demo_write\<rparr>"


definition demo_world :: world where
  "demo_world =
     \<lparr>entropy = (\<lambda>i. of_nat i), drawn = 0, derivations = 0, settles_at = (\<lambda>n. n)\<rparr>"

definition no_options :: options where
  "no_options = \<lparr>opt_cipherTextCoder = None, opt_times = None\<rparr>"

text \<open>
  The instance the constructor returns in this environment, for arguments it accepts, and
  two chains: a list of an AES-GCM key and a bare (AES-CBC) key, and a list whose second
  key names no algorithm of the three.
\<close>

definition demo_instance :: "keys_argument \<Rightarrow> options \<Rightarrow> cryptor" where
  "demo_instance keys opts = projr (fst (SymmetricCryptorBasic_new demo_env keys opts demo_world))"

definition demo_list :: keys_argument where
  "demo_list = KeyList [KeyInput (Some ''AES-GCM'') (KeyString ''a''), Bare (KeyString ''b'')]"

definition demo_bad_list :: keys_argument where
  "demo_bad_list = KeyList [Bare (KeyString ''b''), KeyInput (Some ''aes-cbc'') (KeyString ''a'')]"

text \<open>
  A single key whose tag is none of the three, and options with a custom coder whose
  decoder throws on every text.
\<close>

definition demo_bad_key :: keys_argument where
  "demo_bad_key = SingleKey (KeyInput (Some ''aes-cbc'') (KeyString ''a''))"

definition demo_throwing_coder :: options where
  "demo_throwing_coder =
     \<lparr>opt_cipherTextCoder =
        Some (CoderPair (\<lambda>data. Inl (External ''decoder'')) (\<lambda>data. Inr '''')),
      opt_times = None\<rparr>"

section \<open>Construction\<close>

lemma new_KeyList:
  "SymmetricCryptorBasic_new E (KeyList ks) opts w =
     (case resolveCipherTextCoder E (opt_cipherTextCoder opts) of
        Inl e \<Rightarrow> (Inl e, w)
      | Inr c \<Rightarrow>
          if ks = [] then (Inl ReferenceError_keys, w)
          else (Inr \<lparr>cipherTextDecoder = decoder c, cipherTextEncoder = encoder c,
                     cryptoKeysStorage = None, keyIsSingle = False, keyOnSingleRepeats = 1,
                     keysToCryptoKeysFail = None,
                     keysToCryptoKeysPromise = Some (Promise_all (fst (map_create E ks w)))\<rparr>,
                snd (map_create E ks w)))"
  by (simp add: SymmetricCryptorBasic_new_def split: sum.splits prod.splits)

lemma new_SingleKey:
  "SymmetricCryptorBasic_new E (SingleKey k) opts w =
     (case resolveCipherTextCoder E (opt_cipherTextCoder opts) of
        Inl e \<Rightarrow> (Inl e, w)
      | Inr c \<Rightarrow>
          (case opt_times opts of
             None \<Rightarrow>
               (Inr \<lparr>cipherTextDecoder = decoder c, cipherTextEncoder = encoder c,
                     cryptoKeysStorage = None, keyIsSingle = True, keyOnSingleRepeats = 1,
                     keysToCryptoKeysFail = None,
                     keysToCryptoKeysPromise =
                       Some (Promise_all [fst (SymmetricCryptoService_create E k w)])\<rparr>,
                snd (SymmetricCryptoService_create E k w))
           | Some t \<Rightarrow>
               if isSafeInteger t \<and> number_ge_one t then
                 (Inr \<lparr>cipherTextDecoder = decoder c, cipherTextEncoder = encoder c,
                       cryptoKeysStorage = None, keyIsSingle = True,
                       keyOnSingleRepeats = number_to_nat t,
                       keysToCryptoKeysFail = None,
                       keysToCryptoKeysPromise =
                         Some (Promise_all [fst (SymmetricCryptoService_create E k w)])\<rparr>,
                  snd (SymmetricCryptoService_create E k w))
               else (Inl (TypeError_times t), w)))"
  by (cases "opt_times opts")
     (auto simp add: SymmetricCryptorBasic_new_def split: sum.splits prod.splits)

lemma resolve_valid_coder:
  "valid_coder c \<Longrightarrow> \<exists>r. resolveCipherTextCoder E c = Inr r"
  by (auto simp add: valid_coder_def resolveCipherTextCoder_def cipherTextCodersDefault_def
      toLowerCase_def split: option.splits coder_option.splits)

lemma resolve_default_coder:
  "resolveCipherTextCoder E None =
     Inr \<lparr>decoder = (\<lambda>data. buffer_from E data ''base64''),
          encoder = (\<lambda>data. buffer_toString E data ''base64'')\<rparr>"
  by (simp add: resolveCipherTextCoder_def toLowerCase_def cipherTextCodersDefault_def)

lemma valid_times_iff:
  "valid_times (Some t) \<longleftrightarrow> isSafeInteger t \<and> number_ge_one t"
  by (cases t) (auto simp add: valid_times_def isSafeInteger_def number_ge_one_def)

lemma valid_coder_None: "valid_coder None"
  by (simp add: valid_coder_def)

lemma invalid_times_examples:
  "\<not> valid_times (Some (Finite 0))"
  "\<not> valid_times (Some (Finite (- 1)))"
  "\<not> valid_times (Some (Finite (3 / 2)))"
  by code_simp+

text \<open>
  C7. The claim: a key list together with an explicitly supplied \<open>times\<close> is rejected
  with an error. The constructor never reads \<open>options.times\<close> in its list branch: with
  one key in the list and \<open>times = 3\<close> the construction succeeds.
\<close>

theorem list_with_times_is_accepted:
  "\<not> isl (fst (SymmetricCryptorBasic_new demo_env (KeyList [Bare (KeyString ''k'')])
           \<lparr>opt_cipherTextCoder = None, opt_times = Some (Finite 3)\<rparr> demo_world))"
  by (simp add: new_KeyList resolve_default_coder)

text \<open>
  C7, amended. In list mode the \<open>times\<close> option has no effect at run time: whatever it
  is set to, the constructor returns what it returns without it (only the type of the
  list overload, \<open>Omit<SymmetricCryptorOptions, "times">\<close>, excludes it).
\<close>

theorem list_mode_ignores_times:
  "SymmetricCryptorBasic_new E (KeyList ks) (opts\<lparr>opt_times := t\<rparr>) w =
   SymmetricCryptorBasic_new E (KeyList ks) opts w"
  by (simp add: new_KeyList)

text \<open>
  C8. An empty key list makes the constructor throw, with the world as it was (no key
  derivation has been started), and the error is the ReferenceError for the missing keys
  whenever the coder option is a valid one (the coder is resolved first). In single-key
  mode a \<open>times\<close> that is not a safe integer \<open>\<ge> 1\<close> makes the constructor throw in
  the same way, with the TypeError that carries the value.
\<close>

theorem empty_list_and_bad_times_rejected_at_construction:
  "(isl (fst (SymmetricCryptorBasic_new E (KeyList []) opts w)) \<and>
    snd (SymmetricCryptorBasic_new E (KeyList []) opts w) = w \<and>
    (valid_coder (opt_cipherTextCoder opts) \<longrightarrow>
       fst (SymmetricCryptorBasic_new E (KeyList []) opts w) = Inl ReferenceError_keys)) \<and>
   (opt_times opts = Some t \<and> \<not> valid_times (Some t) \<longrightarrow>
      isl (fst (SymmetricCryptorBasic_new E (SingleKey k) opts w)) \<and>
      snd (SymmetricCryptorBasic_new E (SingleKey k) opts w) = w \<and>
      (valid_coder (opt_cipherTextCoder opts) \<longrightarrow>
         fst (SymmetricCryptorBasic_new E (SingleKey k) opts w) = Inl (TypeError_times t)))"
proof -
  have coder: "valid_coder (opt_cipherTextCoder opts) \<Longrightarrow>
      \<exists>r. resolveCipherTextCoder E (opt_cipherTextCoder opts) = Inr r"
    by (rule resolve_valid_coder)
  have empty: "isl (fst (SymmetricCryptorBasic_new E (KeyList []) opts w)) \<and>
      snd (SymmetricCryptorBasic_new E (KeyList []) opts w) = w"
    by (simp add: new_KeyList split: sum.splits)
  have empty_error: "valid_coder (opt_cipherTextCoder opts) \<Longrightarrow>
      fst (SymmetricCryptorBasic_new E (KeyList []) opts w) = Inl ReferenceError_keys"
    using coder by (auto simp add: new_KeyList)
  have times: "isl (fst (SymmetricCryptorBasic_new E (SingleKey k) opts w)) \<and>
      snd (SymmetricCryptorBasic_new E (SingleKey k) opts w) = w"
    if "opt_times opts = Some t" "\<not> valid_times (Some t)"
    using that by (auto simp add: new_SingleKey valid_times_iff split: sum.splits)
  have times_error:
    "fst (SymmetricCryptorBasic_new E (SingleKey k) opts w) = Inl (TypeError_times t)"
    if "opt_times opts = Some t" "\<not> valid_times (Some t)" "valid_coder (opt_cipherTextCoder opts)"
    using that coder by (auto simp add: new_SingleKey valid_times_iff)
  show ?thesis
    using empty empty_error times times_error by blast
qed

theorem empty_list_and_bad_times_rejected_at_construction_witness:
  "valid_coder (opt_cipherTextCoder no_options) \<and>
   fst (SymmetricCryptorBasic_new demo_env (KeyList []) no_options demo_world)
     = Inl ReferenceError_keys \<and>
   snd (SymmetricCryptorBasic_new demo_env (KeyList []) no_options demo_world) = demo_world \<and>
   \<not> valid_times (Some (Finite 0)) \<and>
   SymmetricCryptorBasic_new demo_env (SingleKey (Bare (KeyString ''k'')))
      (no_options\<lparr>opt_times := Some (Finite 0)\<rparr>) demo_world
     = (Inl (TypeError_times (Finite 0)), demo_world) \<and>
   \<not> valid_times (Some (Finite (- 1))) \<and>
   SymmetricCryptorBasic_new demo_env (SingleKey (Bare (KeyString ''k'')))
      (no_options\<lparr>opt_times := Some (Finite (- 1))\<rparr>) demo_world
     = (Inl (TypeError_times (Finite (- 1))), demo_world) \<and>
   \<not> valid_times (Some (Finite (3 / 2))) \<and>
   SymmetricCryptorBasic_new demo_env (SingleKey (Bare (KeyString ''k'')))
      (no_options\<lparr>opt_times := Some (Finite (3 / 2))\<rparr>) demo_world
     = (Inl (TypeError_times (Finite (3 / 2))), demo_world)"
proof -
  have coder: "valid_coder (opt_cipherTextCoder no_options)"
    by (simp add: no_options_def valid_coder_None)
  have coder': "valid_coder (opt_cipherTextCoder (no_options\<lparr>opt_times := x\<rparr>))" for x
    by (simp add: no_options_def valid_coder_None)
  note bad = invalid_times_examples
  show ?thesis
    using coder bad
      empty_list_and_bad_times_rejected_at_construction
        [of demo_env no_options demo_world "Finite 0" "Bare (KeyString ''k'')"]
      empty_list_and_bad_times_rejected_at_construction
        [of demo_env "no_options\<lparr>opt_times := Some (Finite 0)\<rparr>" demo_world
            "Finite 0" "Bare (KeyString ''k'')"]
      empty_list_and_bad_times_rejected_at_construction
        [of demo_env "no_options\<lparr>opt_times := Some (Finite (- 1))\<rparr>" demo_world
            "Finite (- 1)" "Bare (KeyString ''k'')"]
      empty_list_and_bad_times_rejected_at_construction
        [of demo_env "no_options\<lparr>opt_times := Some (Finite (3 / 2))\<rparr>" demo_world
            "Finite (3 / 2)" "Bare (KeyString ''k'')"]
    by (simp add: coder' prod_eq_iff)
qed

section \<open>One stage\<close>

lemma push_repeats_replicate: "push_repeats n x storage = storage @ replicate n x"
  by (induction n arbitrary: storage) (simp_all add: replicate_app_Cons_same)

lemma length_getRandomValues: "length (fst (getRandomValues n w)) = n"
  by (simp add: getRandomValues_def)

lemma derivations_getRandomValues: "derivations (snd (getRandomValues n w)) = derivations w"
  by (simp add: getRandomValues_def)

lemma new_service_cases:
  "key_algorithm_name k \<in> set algorithms \<Longrightarrow>
   SymmetricCryptoService_new k =
     Inr \<lparr>algorithmName = key_algorithm_name k, cryptoKey = k,
          tokenLength = nonceLength (key_algorithm_name k),
          paramsShape = (if key_algorithm_name k = ''AES-CTR'' then CounterShape else IvShape)\<rparr>"
  by (auto simp add: SymmetricCryptoService_new_def algorithms_def nonceLength_def Let_def)

lemma new_service_wf: "SymmetricCryptoService_new k = Inr svc \<Longrightarrow> wf_service svc"
  by (auto simp add: SymmetricCryptoService_new_def wf_service_def algorithms_def nonceLength_def
      Let_def split: if_splits)

lemma wf_encrypt_params:
  "wf_service svc \<Longrightarrow> resolveEncryptParameters svc token = spec_params (algorithmName svc) token"
  by (auto simp add: wf_service_def resolveEncryptParameters_def spec_params_def)

lemma wf_decrypt_params:
  "wf_service svc \<Longrightarrow>
   resolveDecryptParameters svc blob =
     spec_params (algorithmName svc) (take (tokenLength svc) blob)"
  by (auto simp add: wf_service_def resolveDecryptParameters_def spec_params_def slice_def)

lemma service_encrypt_eq:
  "SymmetricCryptoService_encrypt E svc data w =
     (map_sum id (\<lambda>c. fst (getRandomValues (tokenLength svc) w) @ c)
        (subtle_encrypt E (resolveEncryptParameters svc (fst (getRandomValues (tokenLength svc) w)))
           (cryptoKey svc) data),
      snd (getRandomValues (tokenLength svc) w))"
  by (simp add: SymmetricCryptoService_encrypt_def split: prod.splits sum.splits)

lemma valid_spec_params:
  "a \<in> set algorithms \<Longrightarrow> length t = nonceLength a \<Longrightarrow> valid_params (spec_params a t)"
  by (auto simp add: valid_params_def spec_params_def algorithms_def nonceLength_def)

lemma params_name_spec: "params_name (spec_params a t) = a"
  by (simp add: params_name_def spec_params_def)

text \<open>
  C4. For a key of one of the three algorithms the stage is built, its token length is
  the \<open>nonceLength\<close> of the algorithm, \<open>encrypt\<close> returns the random value of that many
  bytes followed by the output of the primitive (called with the random value as IV or
  as counter block of bit length 64), and \<open>decrypt\<close> hands the primitive the first
  \<open>nonceLength\<close> bytes of its input as IV or counter block and the rest as ciphertext.
\<close>

theorem stage_blob_layout:
  assumes "key_algorithm_name k \<in> set algorithms"
  shows "\<exists>svc. SymmetricCryptoService_new k = Inr svc \<and>
           tokenLength svc = nonceLength (key_algorithm_name k) \<and>
           length (fst (getRandomValues (tokenLength svc) w)) = nonceLength (key_algorithm_name k) \<and>
           SymmetricCryptoService_encrypt E svc data w =
             (map_sum id (\<lambda>c. fst (getRandomValues (tokenLength svc) w) @ c)
                (subtle_encrypt E
                   (spec_params (key_algorithm_name k) (fst (getRandomValues (tokenLength svc) w)))
                   k data),
              snd (getRandomValues (tokenLength svc) w)) \<and>
           SymmetricCryptoService_decrypt E svc blob =
             subtle_decrypt E
               (spec_params (key_algorithm_name k) (take (nonceLength (key_algorithm_name k)) blob))
               k (drop (nonceLength (key_algorithm_name k)) blob)"
proof -
  let ?svc = "\<lparr>algorithmName = key_algorithm_name k, cryptoKey = k,
          tokenLength = nonceLength (key_algorithm_name k),
          paramsShape = (if key_algorithm_name k = ''AES-CTR'' then CounterShape else IvShape)\<rparr>"
  have new: "SymmetricCryptoService_new k = Inr ?svc"
    using assms by (rule new_service_cases)
  then have wf: "wf_service ?svc"
    by (rule new_service_wf)
  have enc: "SymmetricCryptoService_encrypt E ?svc data w =
             (map_sum id (\<lambda>c. fst (getRandomValues (tokenLength ?svc) w) @ c)
                (subtle_encrypt E
                   (spec_params (key_algorithm_name k) (fst (getRandomValues (tokenLength ?svc) w)))
                   k data),
              snd (getRandomValues (tokenLength ?svc) w))"
    using wf_encrypt_params [OF wf] by (simp add: service_encrypt_eq)
  have dec: "SymmetricCryptoService_decrypt E ?svc blob =
             subtle_decrypt E
               (spec_params (key_algorithm_name k) (take (nonceLength (key_algorithm_name k)) blob))
               k (drop (nonceLength (key_algorithm_name k)) blob)"
    using wf_decrypt_params [OF wf, of blob]
    by (simp add: SymmetricCryptoService_decrypt_def slice_def)
  show ?thesis
    using new enc dec by (simp add: length_getRandomValues)
qed

theorem stage_blob_layout_witness:
  "key_algorithm_name \<lparr>key_algorithm_name = ''AES-GCM'', key_material = [7]\<rparr> \<in> set algorithms \<and>
   (\<exists>svc. SymmetricCryptoService_new \<lparr>key_algorithm_name = ''AES-GCM'', key_material = [7]\<rparr>
             = Inr svc \<and>
          tokenLength svc = 12 \<and>
          fst (SymmetricCryptoService_encrypt demo_env svc [9] demo_world)
            = Inr ([0, 1, 2, 3, 4, 5, 6, 7, 8, 9, 10, 11] @ [1, 9]) \<and>
          SymmetricCryptoService_decrypt demo_env svc [0, 1, 2, 3, 4, 5, 6, 7, 8, 9, 10, 11, 1, 9]
            = Inr [9])"
proof -
  have alg: "key_algorithm_name \<lparr>key_algorithm_name = ''AES-GCM'', key_material = [7]\<rparr>
      \<in> set algorithms"
    by (simp add: algorithms_def)
  have token: "fst (getRandomValues 12 demo_world) = [0, 1, 2, 3, 4, 5, 6, 7, 8, 9, 10, 11]"
    by (simp add: getRandomValues_def demo_world_def upt_rec)
  show ?thesis
    using alg token
      stage_blob_layout [OF alg, of demo_world demo_env "[9]"
        "[0, 1, 2, 3, 4, 5, 6, 7, 8, 9, 10, 11, 1, 9]"]
    by (auto simp add: nonceLength_def spec_params_def demo_env_def demo_decrypt_def)
qed

section \<open>The chain\<close>

lemma encrypt_loop_append:
  "encrypt_loop E (xs @ ys) bin w =
     (case encrypt_loop E xs bin w of
        (Inl e, w') \<Rightarrow> (Inl e, w')
      | (Inr bin', w') \<Rightarrow> encrypt_loop E ys bin' w')"
  by (induction xs arbitrary: bin w) (auto split: option.splits sum.splits prod.splits)

lemma decrypt_loop_append:
  "decrypt_loop E (xs @ ys) bin =
     (case decrypt_loop E xs bin of Inl e \<Rightarrow> Inl e | Inr bin' \<Rightarrow> decrypt_loop E ys bin')"
  by (induction xs arbitrary: bin) (auto split: option.splits sum.splits)

lemma spec_encrypt_upto_take:
  "i \<le> length stages \<Longrightarrow>
   spec_encrypt_upto E stages i bin w = encrypt_loop E (take i stages) bin w"
proof (induction i)
  case 0
  then show ?case by simp
next
  case (Suc i)
  then have "take (Suc i) stages = take i stages @ [stages ! i]"
    by (simp add: take_Suc_conv_app_nth)
  with Suc show ?case
    by (auto simp add: encrypt_loop_append stage_encrypt_def
        split: prod.splits sum.splits option.splits)
qed

lemma spec_decrypt_from_take:
  "i \<le> length stages \<Longrightarrow>
   spec_decrypt_from E stages i bin = decrypt_loop E (rev (take i stages)) bin"
proof (induction i arbitrary: bin)
  case 0
  then show ?case by simp
next
  case (Suc i)
  then have "rev (take (Suc i) stages) = stages ! i # rev (take i stages)"
    by (simp add: take_Suc_conv_app_nth)
  with Suc show ?case
    by (auto simp add: stage_decrypt_def split: sum.splits option.splits)
qed

text \<open>
  C3. When the instance hands out its \<open>n\<close> stages, the private \<open>#encrypt\<close> is the
  per-stage encrypt of stage 0, then of stage 1, and so on up to stage \<open>n - 1\<close>, each on
  the output of the one before; the private \<open>#decrypt\<close> of a non-empty input is the
  per-stage decrypt of stage \<open>n - 1\<close> first, down to stage 0.
\<close>

theorem chain_order:
  assumes "fst (getCryptoKeys s) = Inr stages"
  shows "encrypt_private E s bin w =
           (fst (spec_encrypt_upto E stages (length stages) bin w), snd (getCryptoKeys s),
            snd (spec_encrypt_upto E stages (length stages) bin w)) \<and>
         (bin \<noteq> [] \<longrightarrow>
            decrypt_private E s bin =
              (spec_decrypt_from E stages (length stages) bin, snd (getCryptoKeys s)))"
proof (cases "getCryptoKeys s")
  case (Pair r s')
  with assms have "getCryptoKeys s = (Inr stages, s')"
    by simp
  then show ?thesis
    by (simp add: encrypt_private_def decrypt_private_def spec_encrypt_upto_take
        spec_decrypt_from_take split: prod.splits)
qed

theorem chain_order_witness:
  "fst (getCryptoKeys (demo_instance demo_list no_options))
     = Inr (projr (fst (getCryptoKeys (demo_instance demo_list no_options)))) \<and>
   map (map_option algorithmName) (projr (fst (getCryptoKeys (demo_instance demo_list no_options))))
     = [Some ''AES-GCM'', Some ''AES-CBC''] \<and>
   fst (encrypt_private demo_env (demo_instance demo_list no_options) [5] demo_world)
     = fst (spec_encrypt_upto demo_env
         (projr (fst (getCryptoKeys (demo_instance demo_list no_options)))) 2 [5] demo_world) \<and>
   fst (decrypt_private demo_env (demo_instance demo_list no_options) [7, 8])
     = spec_decrypt_from demo_env
         (projr (fst (getCryptoKeys (demo_instance demo_list no_options)))) 2 [7, 8]"
proof -
  let ?s = "demo_instance demo_list no_options"
  have "\<not> isl (fst (getCryptoKeys ?s))"
    by code_simp
  then have keys: "fst (getCryptoKeys ?s) = Inr (projr (fst (getCryptoKeys ?s)))"
    by simp
  have names: "map (map_option algorithmName) (projr (fst (getCryptoKeys ?s)))
      = [Some ''AES-GCM'', Some ''AES-CBC'']"
    by code_simp
  then have len: "length (projr (fst (getCryptoKeys ?s))) = 2"
    by (metis length_map length_Cons list.size(3) numeral_2_eq_2)
  show ?thesis
    using keys names len chain_order [OF keys, of demo_env "[5]" demo_world]
      chain_order [OF keys, of demo_env "[7, 8]" demo_world]
    by simp
qed

section \<open>Readiness\<close>

lemma ready_succeeded:
  assumes "derivation_succeeded s stages"
  shows "fst (ready s) = Inr ()"
    and "keysToCryptoKeysPromise (snd (ready s)) = None"
    and "cryptoKeysStorage (snd (ready s)) = Some stages"
    and "keysToCryptoKeysFail (snd (ready s)) = None"
    and "cipherTextDecoder (snd (ready s)) = cipherTextDecoder s"
  using assms
  by (auto simp add: derivation_succeeded_def ready_def stage_list_def push_repeats_replicate
      Let_def split: option.splits sum.splits)

lemma ready_failed:
  assumes "derivation_failed s e"
  shows "fst (ready s) = Inl e"
    and "keysToCryptoKeysPromise (snd (ready s)) = None"
    and "keysToCryptoKeysFail (snd (ready s)) = Some e"
    and "cipherTextDecoder (snd (ready s)) = cipherTextDecoder s"
  using assms
  by (auto simp add: derivation_failed_def ready_def Let_def split: option.splits sum.splits)

lemma ready_keeps_decoder: "cipherTextDecoder (snd (ready s)) = cipherTextDecoder s"
  by (auto simp add: ready_def Let_def split: option.splits sum.splits)

lemma succeeded_after_ready:
  "derivation_succeeded s stages \<Longrightarrow> derivation_succeeded (snd (ready s)) stages"
  by (simp add: ready_succeeded derivation_succeeded_def [of "snd (ready s)"])

lemma failed_after_ready:
  "derivation_failed s e \<Longrightarrow> derivation_failed (snd (ready s)) e"
  by (simp add: ready_failed derivation_failed_def [of "snd (ready s)"])

lemma getCryptoKeys_succeeded:
  assumes "derivation_succeeded s stages" "stages \<noteq> []"
  shows "getCryptoKeys s = (Inr stages, snd (ready s))"
  using ready_succeeded [OF assms(1)] assms(2)
  by (cases "ready s") (simp add: getCryptoKeys_def)

lemma getCryptoKeys_failed:
  assumes "derivation_failed s e"
  shows "getCryptoKeys s = (Inl e, snd (ready s))"
  using ready_failed [OF assms]
  by (cases "ready s") (simp add: getCryptoKeys_def)

lemma decrypt_private_failed:
  "derivation_failed s e \<Longrightarrow> decrypt_private E s data = (Inl e, snd (ready s))"
  by (simp add: decrypt_private_def getCryptoKeys_failed)

lemma encrypt_private_failed:
  "derivation_failed s e \<Longrightarrow> encrypt_private E s data w = (Inl e, snd (ready s), w)"
  by (simp add: encrypt_private_def getCryptoKeys_failed)

lemma decrypt_private_succeeded:
  "derivation_succeeded s stages \<Longrightarrow> stages \<noteq> [] \<Longrightarrow>
   decrypt_private E s data =
     (if data = [] then Inr data else decrypt_loop E (rev stages) data, snd (ready s))"
  by (simp add: decrypt_private_def getCryptoKeys_succeeded)

lemma encrypt_private_succeeded:
  "derivation_succeeded s stages \<Longrightarrow> stages \<noteq> [] \<Longrightarrow>
   encrypt_private E s data w =
     (fst (encrypt_loop E stages data w), snd (ready s), snd (encrypt_loop E stages data w))"
  by (simp add: encrypt_private_def getCryptoKeys_succeeded split: prod.splits)

lemma ready_state_cases:
  "snd (getCryptoKeys s) = snd (ready s)"
  by (cases "ready s") (auto simp add: getCryptoKeys_def split: sum.splits option.splits)

lemma perform_state:
  "fst (snd (perform E c (s, w))) = s \<or> fst (snd (perform E c (s, w))) = snd (ready s)"
  using ready_state_cases [of s]
  by (cases c)
     (auto simp add: encrypt_bytes_def decrypt_bytes_def encrypt_string_def decrypt_string_def
       encrypt_private_def decrypt_private_def split: prod.splits sum.splits)

lemma perform_succeeded:
  "derivation_succeeded s stages \<Longrightarrow>
   derivation_succeeded (fst (snd (perform E c (s, w)))) stages"
  using perform_state [of E c s w] succeeded_after_ready [of s stages] by auto

lemma perform_failed:
  "derivation_failed s e \<Longrightarrow> derivation_failed (fst (snd (perform E c (s, w)))) e"
  using perform_state [of E c s w] failed_after_ready [of s e] by auto

lemma perform_keeps_decoder:
  "cipherTextDecoder (fst (snd (perform E c (s, w)))) = cipherTextDecoder s"
  using perform_state [of E c s w] ready_keeps_decoder [of s] by auto

lemma encrypt_loop_derivations:
  "derivations (snd (encrypt_loop E stages bin w)) = derivations w"
  by (induction stages arbitrary: bin w)
     (auto simp add: service_encrypt_eq derivations_getRandomValues
       split: option.splits sum.splits prod.splits)

lemma encrypt_private_derivations:
  "derivations (snd (snd (encrypt_private E s data w))) = derivations w"
  by (auto simp add: encrypt_private_def encrypt_loop_derivations split: prod.splits sum.splits)
    (metis encrypt_loop_derivations snd_conv)

lemma encrypt_private_derivationsD:
  "encrypt_private E s data w = (r, s', w') \<Longrightarrow> derivations w' = derivations w"
  using encrypt_private_derivations [of E s data w] by simp

lemma perform_derivations:
  "derivations (snd (snd (perform E c (s, w)))) = derivations w"
  by (cases c)
     (auto simp add: encrypt_bytes_def encrypt_string_def
       split: prod.splits sum.splits dest: encrypt_private_derivationsD)

lemma run_calls_succeeded:
  "derivation_succeeded s stages \<Longrightarrow> derivation_succeeded (fst (run_calls E cs (s, w))) stages"
proof (induction cs arbitrary: s w)
  case Nil
  then show ?case by simp
next
  case (Cons c cs)
  obtain r s' w' where p: "perform E c (s, w) = (r, s', w')"
    by (metis prod_cases3)
  with Cons.prems perform_succeeded [of s stages E c w] have "derivation_succeeded s' stages"
    by simp
  with Cons.IH p show ?case by simp
qed

lemma run_calls_failed:
  "derivation_failed s e \<Longrightarrow> derivation_failed (fst (run_calls E cs (s, w))) e"
proof (induction cs arbitrary: s w)
  case Nil
  then show ?case by simp
next
  case (Cons c cs)
  obtain r s' w' where p: "perform E c (s, w) = (r, s', w')"
    by (metis prod_cases3)
  with Cons.prems perform_failed [of s e E c w] have "derivation_failed s' e"
    by simp
  with Cons.IH p show ?case by simp
qed

lemma run_calls_keeps_decoder:
  "cipherTextDecoder (fst (run_calls E cs (s, w))) = cipherTextDecoder s"
proof (induction cs arbitrary: s w)
  case Nil
  then show ?case by simp
next
  case (Cons c cs)
  obtain r s' w' where p: "perform E c (s, w) = (r, s', w')"
    by (metis prod_cases3)
  with perform_keeps_decoder [of E c s w] have "cipherTextDecoder s' = cipherTextDecoder s"
    by simp
  with Cons.IH [of s' w'] p show ?case by simp
qed

lemma run_calls_derivations:
  "derivations (snd (run_calls E cs (s, w))) = derivations w"
proof (induction cs arbitrary: s w)
  case Nil
  then show ?case by simp
next
  case (Cons c cs)
  obtain r s' w' where p: "perform E c (s, w) = (r, s', w')"
    by (metis prod_cases3)
  with perform_derivations [of E c s w] have "derivations w' = derivations w"
    by simp
  with Cons.IH [of s' w'] p show ?case by simp
qed

lemma ready_failed_eq:
  "derivation_failed s e \<Longrightarrow> ready s = (Inl e, snd (ready s))"
  using ready_failed(1) [of s e] by (cases "ready s") simp

lemma perform_failed_result:
  assumes "derivation_failed s e" "decodable s c"
  shows "fst (perform E c (s, w)) = Inl e"
  using assms ready_failed_eq [of s e]
  by (cases c)
     (auto simp add: encrypt_bytes_def decrypt_bytes_def encrypt_string_def decrypt_string_def
       encrypt_private_failed decrypt_private_failed ready_failed decodable_def
       split: prod.splits sum.splits)

section \<open>What construction leaves behind\<close>

lemma fulfilled_values_length:
  "first_rejected_at_call ps = None \<Longrightarrow> earliest_rejection ps = None \<Longrightarrow>
   length (fulfilled_values ps) = length ps"
  by (induction ps rule: earliest_rejection.induct) (auto split: option.splits if_splits)

lemma Promise_all_fulfilled:
  "Promise_all ps = Inr xs \<longleftrightarrow>
   first_rejected_at_call ps = None \<and> earliest_rejection ps = None \<and> xs = fulfilled_values ps"
  by (auto simp add: Promise_all_def split: option.splits)

lemma Promise_all_length: "Promise_all ps = Inr xs \<Longrightarrow> length xs = length ps"
  by (simp add: Promise_all_fulfilled fulfilled_values_length)

lemma Promise_all_Cons_fulfilled:
  "Promise_all ps = Inr xs \<Longrightarrow> Promise_all (SettledLater t (Inr x) # ps) = Inr (x # xs)"
  by (simp add: Promise_all_fulfilled)

lemma Promise_all_rejected_at_call:
  "first_rejected_at_call ps = Some e \<Longrightarrow> Promise_all ps = Inl e"
  by (simp add: Promise_all_def)

lemma first_rejected_at_call_append:
  "first_rejected_at_call xs = None \<Longrightarrow>
   first_rejected_at_call (xs @ RejectedAtCall e # zs) = Some e"
  by (induction xs rule: first_rejected_at_call.induct) simp_all

lemma length_map_create: "length (fst (map_create E ks w)) = length ks"
  by (induction ks arbitrary: w) (simp_all add: case_prod_beta Let_def)

lemma create_derivations:
  "derivations w \<le> derivations (snd (SymmetricCryptoService_create E k w)) \<and>
   derivations (snd (SymmetricCryptoService_create E k w)) \<le> derivations w + 1"
  by (auto simp add: SymmetricCryptoService_create_def Let_def
      split: key_input.splits option.splits sum.splits prod.splits)

lemma map_create_derivations:
  "derivations (snd (map_create E ks w)) \<le> derivations w + length ks"
proof (induction ks arbitrary: w)
  case Nil
  then show ?case by simp
next
  case (Cons k ks)
  let ?w1 = "snd (SymmetricCryptoService_create E k w)"
  have "derivations ?w1 \<le> derivations w + 1"
    using create_derivations [of w E k] by simp
  moreover have "derivations (snd (map_create E ks ?w1)) \<le> derivations ?w1 + length ks"
    by (rule Cons.IH)
  ultimately show ?case
    by (simp add: case_prod_beta Let_def)
qed

lemma valid_times_repeats: "valid_times (Some t) \<Longrightarrow> 1 \<le> number_to_nat t"
  by (cases t) (auto simp add: valid_times_def number_to_nat_def le_nat_iff)

lemma constructed_list:
  assumes "SymmetricCryptorBasic_new E (KeyList ks) opts w0 = (Inr s0, w1)"
  shows "ks \<noteq> []"
    and "keysToCryptoKeysPromise s0 = Some (Promise_all (fst (map_create E ks w0)))"
    and "keysToCryptoKeysFail s0 = None"
    and "\<not> keyIsSingle s0"
    and "w1 = snd (map_create E ks w0)"
  using assms by (auto simp add: new_KeyList split: sum.splits if_splits)

lemma constructed_single:
  assumes "SymmetricCryptorBasic_new E (SingleKey k) opts w0 = (Inr s0, w1)"
  shows "keysToCryptoKeysPromise s0 =
           Some (Promise_all [fst (SymmetricCryptoService_create E k w0)])"
    and "keysToCryptoKeysFail s0 = None"
    and "keyIsSingle s0"
    and "keyOnSingleRepeats s0 = (case opt_times opts of None \<Rightarrow> 1 | Some t \<Rightarrow> number_to_nat t)"
    and "1 \<le> keyOnSingleRepeats s0"
    and "valid_times (opt_times opts)"
    and "w1 = snd (SymmetricCryptoService_create E k w0)"
  using assms valid_times_repeats
  by (auto simp add: new_SingleKey valid_times_iff valid_times_def [of None]
      split: sum.splits if_splits option.splits)

lemma constructed_stage_list:
  assumes "SymmetricCryptorBasic_new E keys opts w0 = (Inr s0, w1)"
    and "keysToCryptoKeysPromise s0 = Some (Inr result)"
  shows "stage_list s0 result \<noteq> []"
    and "case keys of
           SingleKey _ \<Rightarrow>
             \<exists>svc. result = [svc] \<and>
                   stage_list s0 result = replicate (keyOnSingleRepeats s0) (Some svc)
         | KeyList ks \<Rightarrow> length result = length ks \<and> stage_list s0 result = map Some result"
proof -
  show "case keys of
           SingleKey _ \<Rightarrow>
             \<exists>svc. result = [svc] \<and>
                   stage_list s0 result = replicate (keyOnSingleRepeats s0) (Some svc)
         | KeyList ks \<Rightarrow> length result = length ks \<and> stage_list s0 result = map Some result"
  proof (cases keys)
    case (SingleKey k)
    with assms have "Promise_all [fst (SymmetricCryptoService_create E k w0)] = Inr result"
      and "keyIsSingle s0"
      using constructed_single(1,3) [of E k opts w0 s0 w1] by simp_all
    moreover from this obtain svc where "result = [svc]"
      using Promise_all_length [of "[fst (SymmetricCryptoService_create E k w0)]" result]
      by (cases result) auto
    ultimately show ?thesis
      using SingleKey by (simp add: stage_list_def first_of_def)
  next
    case (KeyList ks)
    with assms have "Promise_all (fst (map_create E ks w0)) = Inr result" and "\<not> keyIsSingle s0"
      using constructed_list(2,4) [of E ks opts w0 s0 w1] by simp_all
    then show ?thesis
      using KeyList Promise_all_length [of "fst (map_create E ks w0)" result]
      by (simp add: stage_list_def length_map_create)
  qed
  then show "stage_list s0 result \<noteq> []"
    using assms(1) constructed_list(1) [of E _ opts w0 s0 w1]
      constructed_single(5) [of E _ opts w0 s0 w1]
    by (cases keys) auto
qed

lemma constructed_succeeded:
  assumes "SymmetricCryptorBasic_new E keys opts w0 = (Inr s0, w1)"
    and "keysToCryptoKeysPromise s0 = Some (Inr result)"
  shows "derivation_succeeded s0 (stage_list s0 result)"
  using assms constructed_list(3) [of E _ opts w0 s0 w1] constructed_single(2) [of E _ opts w0 s0 w1]
  by (cases keys) (simp_all add: derivation_succeeded_def)

lemma constructed_failed:
  "keysToCryptoKeysPromise s0 = Some (Inl e) \<Longrightarrow> derivation_failed s0 e"
  by (simp add: derivation_failed_def)

lemma constructed_derivations:
  assumes "SymmetricCryptorBasic_new E keys opts w0 = (Inr s0, w1)"
  shows "derivations w1 \<le> derivations w0 + (case keys of SingleKey _ \<Rightarrow> 1 | KeyList ks \<Rightarrow> length ks)"
proof (cases keys)
  case (SingleKey k)
  with assms have "w1 = snd (SymmetricCryptoService_create E k w0)"
    using constructed_single(7) by simp
  then show ?thesis
    using SingleKey create_derivations [of w0 E k] by simp
next
  case (KeyList ks)
  with assms have "w1 = snd (map_create E ks w0)"
    using constructed_list(5) by simp
  then show ?thesis
    using KeyList map_create_derivations [of E ks w0] by simp
qed

lemma constructed_promise:
  assumes "SymmetricCryptorBasic_new E keys opts w0 = (Inr s0, w1)"
  shows "\<exists>p. keysToCryptoKeysPromise s0 = Some p"
  using assms constructed_list(2) [of E _ opts w0 s0 w1] constructed_single(1) [of E _ opts w0 s0 w1]
  by (cases keys) auto

text \<open>
  C5. The claim: once the key derivation has failed, every later \<open>ready\<close>, \<open>encrypt\<close>
  and \<open>decrypt\<close> call raises the captured error. \<open>decrypt\<close> of a string runs the coder's
  decoder on the text before the readiness step. On an instance with a decoder that throws,
  whose derivation has failed with the RangeError of the tag, \<open>ready\<close> raises the
  RangeError, and the \<open>decrypt\<close> of a string after it raises the decoder's error, not the
  RangeError.
\<close>

theorem throwing_decoder_comes_before_captured_error:
  "keysToCryptoKeysPromise (demo_instance demo_bad_key demo_throwing_coder)
     = Some (Inl (RangeError_algorithm ''aes-cbc'' algorithms)) \<and>
   fst (perform demo_env CallReady (demo_instance demo_bad_key demo_throwing_coder, demo_world))
     = Inl (RangeError_algorithm ''aes-cbc'' algorithms) \<and>
   fst (perform demo_env (CallDecryptString ''x'')
         (run_calls demo_env [CallReady]
            (demo_instance demo_bad_key demo_throwing_coder, demo_world)))
     = Inl (External ''decoder'') \<and>
   fst (perform demo_env (CallDecryptString ''x'')
         (run_calls demo_env [CallReady]
            (demo_instance demo_bad_key demo_throwing_coder, demo_world)))
     \<noteq> Inl (RangeError_algorithm ''aes-cbc'' algorithms)"
  by code_simp

text \<open>
  C5, amended. Take an instance as the constructor returns it and any calls made on it
  since. No key derivation has been started after construction, and construction started
  at most one per key. If the derivation promise was rejected, every further \<open>ready\<close>,
  \<open>encrypt\<close> and \<open>decrypt\<close> of bytes, and every \<open>decrypt\<close> of a string that the
  coder's decoder accepts, raises that same error. A \<open>decrypt\<close> of a string on which the
  decoder throws raises the decoder's error, at any time, and leaves the instance and the
  world as they were. If the promise was fulfilled, the instance hands out the same stage
  list at every point: the single stage \<open>times\<close> times in single-key mode, one stage per
  list entry in list mode.
\<close>

theorem key_derivation_settles_once:
  assumes "SymmetricCryptorBasic_new E keys opts w0 = (Inr s0, w1)"
    and "run_calls E cs (s0, w1) = (s, w)"
  shows "derivations w = derivations w1 \<and>
         derivations w1 \<le> derivations w0 + (case keys of SingleKey _ \<Rightarrow> 1 | KeyList ks \<Rightarrow> length ks) \<and>
         (\<exists>p. keysToCryptoKeysPromise s0 = Some p) \<and>
         (\<forall>e. keysToCryptoKeysPromise s0 = Some (Inl e) \<longrightarrow>
              (\<forall>c. decodable s0 c \<longrightarrow> fst (perform E c (s, w)) = Inl e)) \<and>
         (\<forall>t e'. cipherTextDecoder s0 t = Inl e' \<longrightarrow>
              perform E (CallDecryptString t) (s, w) = (Inl e', s, w)) \<and>
         (\<forall>result. keysToCryptoKeysPromise s0 = Some (Inr result) \<longrightarrow>
              fst (getCryptoKeys s) = Inr (stage_list s0 result) \<and>
              (case keys of
                 SingleKey _ \<Rightarrow>
                   \<exists>svc. result = [svc] \<and>
                         keyOnSingleRepeats s0 =
                           (case opt_times opts of None \<Rightarrow> 1 | Some t \<Rightarrow> number_to_nat t) \<and>
                         stage_list s0 result = replicate (keyOnSingleRepeats s0) (Some svc)
               | KeyList ks \<Rightarrow>
                   length result = length ks \<and> stage_list s0 result = map Some result))"
proof -
  have s: "s = fst (run_calls E cs (s0, w1))" and w: "w = snd (run_calls E cs (s0, w1))"
    using assms(2) by simp_all
  have d1: "derivations w = derivations w1"
    unfolding w by (rule run_calls_derivations)
  have d2: "derivations w1 \<le> derivations w0 + (case keys of SingleKey _ \<Rightarrow> 1 | KeyList ks \<Rightarrow> length ks)"
    using assms(1) by (rule constructed_derivations)
  have p: "\<exists>p. keysToCryptoKeysPromise s0 = Some p"
    using assms(1) by (rule constructed_promise)
  have failed: "fst (perform E c (s, w)) = Inl e"
    if "keysToCryptoKeysPromise s0 = Some (Inl e)" "decodable s0 c" for e c
  proof -
    have "derivation_failed s e"
      unfolding s using that(1) by (intro run_calls_failed constructed_failed)
    moreover have "decodable s c"
      using that(2) unfolding s
      by (cases c) (simp_all add: decodable_def run_calls_keeps_decoder)
    ultimately show ?thesis
      by (rule perform_failed_result)
  qed
  have thrown: "perform E (CallDecryptString t) (s, w) = (Inl e', s, w)"
    if "cipherTextDecoder s0 t = Inl e'" for t e'
  proof -
    have "cipherTextDecoder s t = Inl e'"
      unfolding s using that by (simp add: run_calls_keeps_decoder)
    then show ?thesis
      by (simp add: decrypt_string_def)
  qed
  have succeeded: "fst (getCryptoKeys s) = Inr (stage_list s0 result)"
    if "keysToCryptoKeysPromise s0 = Some (Inr result)" for result
  proof -
    have "derivation_succeeded s (stage_list s0 result)"
      unfolding s using assms(1) that by (intro run_calls_succeeded constructed_succeeded)
    moreover have "stage_list s0 result \<noteq> []"
      using assms(1) that by (rule constructed_stage_list(1))
    ultimately show ?thesis
      by (simp add: getCryptoKeys_succeeded)
  qed
  have shape: "case keys of
                 SingleKey _ \<Rightarrow>
                   \<exists>svc. result = [svc] \<and>
                         keyOnSingleRepeats s0 =
                           (case opt_times opts of None \<Rightarrow> 1 | Some t \<Rightarrow> number_to_nat t) \<and>
                         stage_list s0 result = replicate (keyOnSingleRepeats s0) (Some svc)
               | KeyList ks \<Rightarrow>
                   length result = length ks \<and> stage_list s0 result = map Some result"
    if "keysToCryptoKeysPromise s0 = Some (Inr result)" for result
    using constructed_stage_list(2) [OF assms(1) that] assms(1)
      constructed_single(4) [of E _ opts w0 s0 w1]
    by (cases keys) auto
  show ?thesis
    using d1 d2 p failed thrown succeeded shape by blast
qed

theorem key_derivation_settles_once_witness:
  "SymmetricCryptorBasic_new demo_env (SingleKey (Bare (KeyString ''b'')))
       (no_options\<lparr>opt_times := Some (Finite 3)\<rparr>) demo_world
     = (Inr (demo_instance (SingleKey (Bare (KeyString ''b'')))
               (no_options\<lparr>opt_times := Some (Finite 3)\<rparr>)),
        demo_world\<lparr>derivations := 1\<rparr>) \<and>
   keysToCryptoKeysPromise (demo_instance (SingleKey (Bare (KeyString ''b'')))
       (no_options\<lparr>opt_times := Some (Finite 3)\<rparr>))
     = Some (Inr (projr (the (keysToCryptoKeysPromise
         (demo_instance (SingleKey (Bare (KeyString ''b'')))
            (no_options\<lparr>opt_times := Some (Finite 3)\<rparr>)))))) \<and>
   derivations (snd (run_calls demo_env [CallReady, CallEncryptBytes [1], CallDecryptBytes [], CallReady]
       (demo_instance (SingleKey (Bare (KeyString ''b'')))
          (no_options\<lparr>opt_times := Some (Finite 3)\<rparr>),
        demo_world\<lparr>derivations := 1\<rparr>))) = 1 \<and>
   fst (getCryptoKeys (fst (run_calls demo_env
       [CallReady, CallEncryptBytes [1], CallDecryptBytes [], CallReady]
       (demo_instance (SingleKey (Bare (KeyString ''b'')))
          (no_options\<lparr>opt_times := Some (Finite 3)\<rparr>),
        demo_world\<lparr>derivations := 1\<rparr>))))
     = Inr (stage_list (demo_instance (SingleKey (Bare (KeyString ''b'')))
                (no_options\<lparr>opt_times := Some (Finite 3)\<rparr>))
              (projr (the (keysToCryptoKeysPromise
                 (demo_instance (SingleKey (Bare (KeyString ''b'')))
                    (no_options\<lparr>opt_times := Some (Finite 3)\<rparr>)))))) \<and>
   map (map_option algorithmName)
       (stage_list (demo_instance (SingleKey (Bare (KeyString ''b'')))
                (no_options\<lparr>opt_times := Some (Finite 3)\<rparr>))
              (projr (the (keysToCryptoKeysPromise
                 (demo_instance (SingleKey (Bare (KeyString ''b'')))
                    (no_options\<lparr>opt_times := Some (Finite 3)\<rparr>))))))
     = [Some ''AES-CBC'', Some ''AES-CBC'', Some ''AES-CBC''] \<and>
   SymmetricCryptorBasic_new demo_env demo_bad_list no_options demo_world
     = (Inr (demo_instance demo_bad_list no_options), demo_world\<lparr>derivations := 1\<rparr>) \<and>
   keysToCryptoKeysPromise (demo_instance demo_bad_list no_options)
     = Some (Inl (RangeError_algorithm ''aes-cbc'' algorithms)) \<and>
   decodable (demo_instance demo_bad_list no_options) (CallDecryptString ''abc'') \<and>
   fst (perform demo_env (CallDecryptString ''abc'')
         (run_calls demo_env [CallReady, CallEncryptBytes [1]]
            (demo_instance demo_bad_list no_options, demo_world\<lparr>derivations := 1\<rparr>)))
     = Inl (RangeError_algorithm ''aes-cbc'' algorithms) \<and>
   SymmetricCryptorBasic_new demo_env demo_bad_key demo_throwing_coder demo_world
     = (Inr (demo_instance demo_bad_key demo_throwing_coder), demo_world) \<and>
   cipherTextDecoder (demo_instance demo_bad_key demo_throwing_coder) ''x''
     = Inl (External ''decoder'') \<and>
   fst (perform demo_env (CallDecryptString ''x'')
         (run_calls demo_env [CallReady]
            (demo_instance demo_bad_key demo_throwing_coder, demo_world)))
     = Inl (External ''decoder'')"
proof -
  let ?good = "demo_instance (SingleKey (Bare (KeyString ''b'')))
       (no_options\<lparr>opt_times := Some (Finite 3)\<rparr>)"
  let ?bad = "demo_instance demo_bad_list no_options"
  let ?w1 = "demo_world\<lparr>derivations := 1\<rparr>"
  let ?cs = "[CallReady, CallEncryptBytes [1], CallDecryptBytes [], CallReady]"
  let ?cs' = "[CallReady, CallEncryptBytes [1]]"
  let ?result = "projr (the (keysToCryptoKeysPromise ?good))"
  have "\<not> isl (fst (SymmetricCryptorBasic_new demo_env (SingleKey (Bare (KeyString ''b'')))
       (no_options\<lparr>opt_times := Some (Finite 3)\<rparr>) demo_world))"
    by code_simp
  moreover have "snd (SymmetricCryptorBasic_new demo_env (SingleKey (Bare (KeyString ''b'')))
       (no_options\<lparr>opt_times := Some (Finite 3)\<rparr>) demo_world) = ?w1"
    by (simp add: new_SingleKey no_options_def resolve_default_coder
        SymmetricCryptoService_create_def demo_env_def demo_world_def Let_def
        isSafeInteger_def number_ge_one_def split: sum.splits)
  ultimately have new_good: "SymmetricCryptorBasic_new demo_env (SingleKey (Bare (KeyString ''b'')))
       (no_options\<lparr>opt_times := Some (Finite 3)\<rparr>) demo_world = (Inr ?good, ?w1)"
    by (simp add: demo_instance_def prod_eq_iff)
  have promise_good: "keysToCryptoKeysPromise ?good = Some (Inr ?result)"
    by code_simp
  have run_good: "run_calls demo_env ?cs (?good, ?w1)
      = (fst (run_calls demo_env ?cs (?good, ?w1)), snd (run_calls demo_env ?cs (?good, ?w1)))"
    by simp
  have names: "map (map_option algorithmName) (stage_list ?good ?result)
      = [Some ''AES-CBC'', Some ''AES-CBC'', Some ''AES-CBC'']"
    by code_simp
  have "\<not> isl (fst (SymmetricCryptorBasic_new demo_env demo_bad_list no_options demo_world))"
    by code_simp
  moreover have "snd (SymmetricCryptorBasic_new demo_env demo_bad_list no_options demo_world) = ?w1"
    by (simp add: demo_bad_list_def new_KeyList no_options_def resolve_default_coder
        SymmetricCryptoService_create_def demo_env_def demo_world_def Let_def algorithms_def
        split: sum.splits)
  ultimately have new_bad:
    "SymmetricCryptorBasic_new demo_env demo_bad_list no_options demo_world = (Inr ?bad, ?w1)"
    by (simp add: demo_instance_def prod_eq_iff)
  have promise_bad: "keysToCryptoKeysPromise ?bad
      = Some (Inl (RangeError_algorithm ''aes-cbc'' algorithms))"
    by code_simp
  have run_bad: "run_calls demo_env ?cs' (?bad, ?w1)
      = (fst (run_calls demo_env ?cs' (?bad, ?w1)), snd (run_calls demo_env ?cs' (?bad, ?w1)))"
    by simp
  have dec: "decodable ?bad (CallDecryptString ''abc'')"
    by code_simp
  have good: "derivations (snd (run_calls demo_env ?cs (?good, ?w1))) = 1 \<and>
      fst (getCryptoKeys (fst (run_calls demo_env ?cs (?good, ?w1))))
        = Inr (stage_list ?good ?result)"
    using key_derivation_settles_once [OF new_good run_good] promise_good by simp
  have bad: "fst (perform demo_env (CallDecryptString ''abc'') (run_calls demo_env ?cs' (?bad, ?w1)))
      = Inl (RangeError_algorithm ''aes-cbc'' algorithms)"
    using key_derivation_settles_once [OF new_bad run_bad] promise_bad dec by simp
  let ?thr = "demo_instance demo_bad_key demo_throwing_coder"
  have "\<not> isl (fst (SymmetricCryptorBasic_new demo_env demo_bad_key demo_throwing_coder
      demo_world))"
    by code_simp
  moreover have "snd (SymmetricCryptorBasic_new demo_env demo_bad_key demo_throwing_coder
      demo_world) = demo_world"
    by (simp add: demo_bad_key_def demo_throwing_coder_def new_SingleKey
        resolveCipherTextCoder_def SymmetricCryptoService_create_def algorithms_def
        split: sum.splits)
  ultimately have new_thr: "SymmetricCryptorBasic_new demo_env demo_bad_key demo_throwing_coder
      demo_world = (Inr ?thr, demo_world)"
    by (simp add: demo_instance_def prod_eq_iff)
  have throws: "cipherTextDecoder ?thr ''x'' = Inl (External ''decoder'')"
    by code_simp
  have run_thr: "run_calls demo_env [CallReady] (?thr, demo_world)
      = (fst (run_calls demo_env [CallReady] (?thr, demo_world)),
         snd (run_calls demo_env [CallReady] (?thr, demo_world)))"
    by simp
  have thr: "fst (perform demo_env (CallDecryptString ''x'')
      (run_calls demo_env [CallReady] (?thr, demo_world))) = Inl (External ''decoder'')"
    using key_derivation_settles_once [OF new_thr run_thr] throws by simp
  show ?thesis
    using new_good promise_good good names new_bad promise_bad dec bad new_thr throws thr
    by simp
qed

section \<open>Key derivation under the contract of the collaborators\<close>

lemma valid_KeySpec_iff:
  "valid_KeySpec (KeyInput (Some a) key) \<longleftrightarrow> a \<in> set algorithms"
  by (auto simp add: valid_KeySpec_def algorithms_def)

lemma create_invalid:
  "\<not> valid_KeySpec (KeyInput (Some a) key) \<Longrightarrow>
   SymmetricCryptoService_create E (KeyInput (Some a) key) w
     = (RejectedAtCall (RangeError_algorithm a algorithms), w)"
  by (simp add: valid_KeySpec_iff SymmetricCryptoService_create_def)

lemma create_algorithm:
  "SymmetricCryptoService_create E k w =
     (case (case k of Bare _ \<Rightarrow> None | KeyInput a _ \<Rightarrow> a) of
        None \<Rightarrow>
          SymmetricCryptoService_create E
            (KeyInput (Some ''AES-CBC'') (case k of Bare x \<Rightarrow> x | KeyInput _ x \<Rightarrow> x)) w
      | Some a \<Rightarrow>
          SymmetricCryptoService_create E
            (KeyInput (Some a) (case k of Bare x \<Rightarrow> x | KeyInput _ x \<Rightarrow> x)) w)"
  by (auto simp add: SymmetricCryptoService_create_def algorithms_def
      split: key_input.splits option.splits)

lemma create_tagged_valid:
  assumes "derivation_contract E" "a \<in> set algorithms"
  shows "\<exists>svc. SymmetricCryptoService_create E (KeyInput (Some a) key) w
             = (SettledLater (settles_at w (derivations w)) (Inr svc),
                w\<lparr>derivations := derivations w + 1\<rparr>) \<and> wf_service svc"
proof -
  obtain d where d: "subtle_digest E (case key of KeyString s \<Rightarrow> text_encode E s | KeyBuffer b \<Rightarrow> b)
      = Inr d" "length d = 32"
    using assms(1) unfolding derivation_contract_def by blast
  then obtain ck where ck: "subtle_importKey E d a = Inr ck" "key_algorithm_name ck = a"
    using assms unfolding derivation_contract_def by blast
  then obtain svc where svc: "SymmetricCryptoService_new ck = Inr svc"
    using assms(2) new_service_cases [of ck] by auto
  then have "wf_service svc"
    by (rule new_service_wf)
  moreover have "SymmetricCryptoService_create E (KeyInput (Some a) key) w
             = (SettledLater (settles_at w (derivations w)) (Inr svc),
                w\<lparr>derivations := derivations w + 1\<rparr>)"
    using assms(2) d(1) ck(1) svc by (simp add: SymmetricCryptoService_create_def)
  ultimately show ?thesis
    by blast
qed

lemma create_valid:
  assumes "derivation_contract E" "valid_KeySpec k"
  shows "\<exists>svc. SymmetricCryptoService_create E k w
             = (SettledLater (settles_at w (derivations w)) (Inr svc),
                w\<lparr>derivations := derivations w + 1\<rparr>) \<and> wf_service svc"
proof (cases "case k of Bare _ \<Rightarrow> None | KeyInput a _ \<Rightarrow> a")
  case None
  have "''AES-CBC'' \<in> set algorithms"
    by (simp add: algorithms_def)
  from create_tagged_valid [OF assms(1) this] None show ?thesis
    by (subst create_algorithm) simp
next
  case (Some a)
  with assms(2) have "a \<in> set algorithms"
    by (cases k) (simp_all add: valid_KeySpec_iff)
  from create_tagged_valid [OF assms(1) this] Some show ?thesis
    by (subst create_algorithm) simp
qed

lemma create_valid_later:
  "valid_KeySpec k \<Longrightarrow>
   \<exists>r. SymmetricCryptoService_create E k w
         = (SettledLater (settles_at w (derivations w)) r,
            w\<lparr>derivations := derivations w + 1\<rparr>)"
  by (cases k)
     (auto simp add: SymmetricCryptoService_create_def valid_KeySpec_def algorithms_def
       split: option.splits)

lemma map_create_Cons:
  "map_create E (k # ks) w =
     (fst (SymmetricCryptoService_create E k w)
        # fst (map_create E ks (snd (SymmetricCryptoService_create E k w))),
      snd (map_create E ks (snd (SymmetricCryptoService_create E k w))))"
  by (simp add: case_prod_beta Let_def)

lemma map_create_append:
  "fst (map_create E (xs @ ys) w) =
     fst (map_create E xs w) @ fst (map_create E ys (snd (map_create E xs w)))"
  by (induction xs arbitrary: w) (simp_all add: case_prod_beta Let_def)

lemma map_create_valid:
  assumes "derivation_contract E"
  shows "list_all valid_KeySpec ks \<Longrightarrow>
         \<exists>svcs. Promise_all (fst (map_create E ks w)) = Inr svcs \<and>
                list_all wf_service svcs \<and> length svcs = length ks"
proof (induction ks arbitrary: w)
  case Nil
  then show ?case by (simp add: Promise_all_def)
next
  case (Cons k ks)
  from Cons.prems have k: "valid_KeySpec k" and ks: "list_all valid_KeySpec ks"
    by simp_all
  obtain svc where svc: "SymmetricCryptoService_create E k w
      = (SettledLater (settles_at w (derivations w)) (Inr svc),
         w\<lparr>derivations := derivations w + 1\<rparr>)" "wf_service svc"
    using create_valid [OF assms k] by blast
  obtain svcs where svcs:
    "Promise_all (fst (map_create E ks (w\<lparr>derivations := derivations w + 1\<rparr>))) = Inr svcs"
    "list_all wf_service svcs" "length svcs = length ks"
    using Cons.IH [OF ks] by blast
  show ?case
    using svc svcs
    by (intro exI [of _ "svc # svcs"])
       (simp add: map_create_Cons Promise_all_Cons_fulfilled del: map_create.simps)
qed

lemma map_create_valid_later:
  "list_all valid_KeySpec ks \<Longrightarrow> first_rejected_at_call (fst (map_create E ks w)) = None"
proof (induction ks arbitrary: w)
  case Nil
  then show ?case by simp
next
  case (Cons k ks)
  from Cons.prems have k: "valid_KeySpec k" and ks: "list_all valid_KeySpec ks"
    by simp_all
  obtain r where "SymmetricCryptoService_create E k w
      = (SettledLater (settles_at w (derivations w)) r, w\<lparr>derivations := derivations w + 1\<rparr>)"
    using create_valid_later [OF k] by blast
  then show ?case
    using Cons.IH [OF ks] by (simp add: map_create_Cons del: map_create.simps)
qed

lemma valid_ChainSpec_constructs:
  assumes "derivation_contract E" "valid_ChainSpec keys opts"
  shows "\<exists>s0 w1 svcs. SymmetricCryptorBasic_new E keys opts w0 = (Inr s0, w1) \<and>
           derivation_succeeded s0 (map Some svcs) \<and> svcs \<noteq> [] \<and> list_all wf_service svcs"
proof -
  obtain c where c: "resolveCipherTextCoder E (opt_cipherTextCoder opts) = Inr c"
    using assms(2) resolve_valid_coder unfolding valid_ChainSpec_def by blast
  show ?thesis
  proof (cases keys)
    case (SingleKey k)
    with assms(2) have k: "valid_KeySpec k" and t: "valid_times (opt_times opts)"
      by (simp_all add: valid_ChainSpec_def)
    obtain svc where svc: "SymmetricCryptoService_create E k w0
        = (SettledLater (settles_at w0 (derivations w0)) (Inr svc),
           w0\<lparr>derivations := derivations w0 + 1\<rparr>)" "wf_service svc"
      using create_valid [OF assms(1) k] by blast
    obtain s0 w1 where new: "SymmetricCryptorBasic_new E keys opts w0 = (Inr s0, w1)"
      using c t svc(1) SingleKey
      by (cases "opt_times opts") (auto simp add: new_SingleKey valid_times_iff)
    then have p: "keysToCryptoKeysPromise s0 = Some (Inr [svc])"
      using constructed_single(1) [of E k opts w0 s0 w1] svc(1) SingleKey
      by (simp add: Promise_all_def)
    have "derivation_succeeded s0 (stage_list s0 [svc])"
      using new p by (rule constructed_succeeded)
    moreover have "stage_list s0 [svc] = map Some (replicate (keyOnSingleRepeats s0) svc)"
      using constructed_single(3) [of E k opts w0 s0 w1] new SingleKey
      by (simp add: stage_list_def first_of_def)
    moreover have "replicate (keyOnSingleRepeats s0) svc \<noteq> []"
      using constructed_single(5) [of E k opts w0 s0 w1] new SingleKey by auto
    moreover have "list_all wf_service (replicate (keyOnSingleRepeats s0) svc)"
      using svc(2) by (simp add: list_all_iff)
    ultimately show ?thesis
      using new by metis
  next
    case (KeyList ks)
    with assms(2) have ks: "ks \<noteq> []" "list_all valid_KeySpec ks"
      by (simp_all add: valid_ChainSpec_def)
    obtain svcs where svcs: "Promise_all (fst (map_create E ks w0)) = Inr svcs"
      "list_all wf_service svcs" "length svcs = length ks"
      using map_create_valid [OF assms(1) ks(2)] by blast
    obtain s0 w1 where new: "SymmetricCryptorBasic_new E keys opts w0 = (Inr s0, w1)"
      using c ks(1) KeyList by (auto simp add: new_KeyList)
    then have p: "keysToCryptoKeysPromise s0 = Some (Inr svcs)"
      using constructed_list(2) [of E ks opts w0 s0 w1] svcs(1) KeyList by simp
    have "derivation_succeeded s0 (stage_list s0 svcs)"
      using new p by (rule constructed_succeeded)
    moreover have "stage_list s0 svcs = map Some svcs"
      using constructed_list(4) [of E ks opts w0 s0 w1] new KeyList
      by (simp add: stage_list_def)
    moreover have "svcs \<noteq> []"
      using svcs(3) ks(1) by auto
    ultimately show ?thesis
      using new svcs(2) by metis
  qed
qed

section \<open>Round trip\<close>

lemma service_roundtrip:
  assumes "cipher_contract E" "wf_service svc"
  shows "\<exists>c. SymmetricCryptoService_encrypt E svc data w =
              (Inr c, snd (getRandomValues (tokenLength svc) w)) \<and>
            SymmetricCryptoService_decrypt E svc c = Inr data \<and>
            c \<noteq> [] \<and>
            (cipher_expanding E \<longrightarrow> nonceLength (algorithmName svc) + length data \<le> length c)"
proof -
  let ?t = "fst (getRandomValues (tokenLength svc) w)"
  let ?p = "spec_params (algorithmName svc) ?t"
  have len: "length ?t = tokenLength svc"
    by (rule length_getRandomValues)
  have "valid_params ?p"
    using assms(2) len by (simp add: valid_spec_params wf_service_def)
  moreover have "key_algorithm_name (cryptoKey svc) = params_name ?p"
    using assms(2) by (simp add: params_name_spec wf_service_def)
  ultimately obtain c where c: "subtle_encrypt E ?p (cryptoKey svc) data = Inr c"
      "subtle_decrypt E ?p (cryptoKey svc) c = Inr data"
    using assms(1) unfolding cipher_contract_def by blast
  have enc: "SymmetricCryptoService_encrypt E svc data w =
              (Inr (?t @ c), snd (getRandomValues (tokenLength svc) w))"
    using c(1) wf_encrypt_params [OF assms(2)] by (simp add: service_encrypt_eq)
  have dec: "SymmetricCryptoService_decrypt E svc (?t @ c) = Inr data"
    using c(2) wf_decrypt_params [OF assms(2), of "?t @ c"] len
    by (simp add: SymmetricCryptoService_decrypt_def slice_def)
  have tl: "tokenLength svc = nonceLength (algorithmName svc)"
    using assms(2) by (simp add: wf_service_def)
  have pos: "0 < tokenLength svc"
    using assms(2) by (auto simp add: wf_service_def nonceLength_def algorithms_def)
  have exp: "cipher_expanding E \<Longrightarrow> length data \<le> length c"
    using c(1) unfolding cipher_expanding_def by blast
  show ?thesis
    using enc dec len pos exp tl by (intro exI [of _ "?t @ c"]) auto
qed

lemma loop_roundtrip:
  assumes "cipher_contract E"
  shows "list_all wf_service svcs \<Longrightarrow>
         \<exists>c. fst (encrypt_loop E (map Some svcs) data w) = Inr c \<and>
             decrypt_loop E (rev (map Some svcs)) c = Inr data \<and>
             (svcs \<noteq> [] \<longrightarrow> c \<noteq> []) \<and>
             (cipher_expanding E \<longrightarrow>
                sum_list (map (\<lambda>svc. nonceLength (algorithmName svc)) svcs) + length data
                  \<le> length c)"
proof (induction svcs arbitrary: data w)
  case Nil
  then show ?case by simp
next
  case (Cons svc svcs)
  from Cons.prems have wf: "wf_service svc" and rest: "list_all wf_service svcs"
    by simp_all
  let ?w1 = "snd (getRandomValues (tokenLength svc) w)"
  obtain c1 where c1: "SymmetricCryptoService_encrypt E svc data w = (Inr c1, ?w1)"
    "SymmetricCryptoService_decrypt E svc c1 = Inr data" "c1 \<noteq> []"
    "cipher_expanding E \<longrightarrow> nonceLength (algorithmName svc) + length data \<le> length c1"
    using service_roundtrip [OF assms wf, of data w] by blast
  obtain c where c: "fst (encrypt_loop E (map Some svcs) c1 ?w1) = Inr c"
    "decrypt_loop E (rev (map Some svcs)) c = Inr c1"
    "svcs \<noteq> [] \<longrightarrow> c \<noteq> []"
    "cipher_expanding E \<longrightarrow>
       sum_list (map (\<lambda>svc. nonceLength (algorithmName svc)) svcs) + length c1 \<le> length c"
    using Cons.IH [OF rest, of c1 ?w1] by blast
  have "fst (encrypt_loop E (map Some (svc # svcs)) data w) = Inr c"
    using c1(1) c(1) by simp
  moreover have "decrypt_loop E (rev (map Some (svc # svcs))) c = Inr data"
    using c(2) c1(2) by (simp add: decrypt_loop_append)
  moreover have "c \<noteq> []"
  proof (cases svcs)
    case Nil
    with c(1) c1(3) show ?thesis by simp
  next
    case (Cons a list)
    with c(3) show ?thesis by simp
  qed
  moreover have "cipher_expanding E \<longrightarrow>
      sum_list (map (\<lambda>svc. nonceLength (algorithmName svc)) (svc # svcs)) + length data
        \<le> length c"
    using c1(4) c(4) by auto
  ultimately show ?case
    by blast
qed

lemma succeeded_roundtrip:
  assumes "cipher_contract E" "derivation_succeeded s (map Some svcs)" "svcs \<noteq> []"
    "list_all wf_service svcs"
  shows "\<exists>c. fst (encrypt_bytes E s p w) = Inr c \<and> c \<noteq> [] \<and>
             (cipher_expanding E \<longrightarrow>
                sum_list (map (\<lambda>svc. nonceLength (algorithmName svc)) svcs) + length p
                  \<le> length c) \<and>
             derivation_succeeded (fst (snd (encrypt_bytes E s p w))) (map Some svcs) \<and>
             (\<forall>s'. derivation_succeeded s' (map Some svcs) \<longrightarrow>
                   fst (decrypt_bytes E s' c) = Inr p)"
proof -
  have ne: "map Some svcs \<noteq> []"
    using assms(3) by simp
  obtain c where c: "fst (encrypt_loop E (map Some svcs) p w) = Inr c"
    "decrypt_loop E (rev (map Some svcs)) c = Inr p" "c \<noteq> []"
    "cipher_expanding E \<longrightarrow>
       sum_list (map (\<lambda>svc. nonceLength (algorithmName svc)) svcs) + length p \<le> length c"
    using loop_roundtrip [OF assms(1,4), of p w] assms(3) by blast
  have enc: "encrypt_bytes E s p w =
      (Inr c, snd (ready s), snd (encrypt_loop E (map Some svcs) p w))"
    using c(1) by (simp add: encrypt_bytes_def encrypt_private_succeeded [OF assms(2) ne])
  have "fst (decrypt_bytes E s' c) = Inr p" if "derivation_succeeded s' (map Some svcs)" for s'
    using c(2,3) by (simp add: decrypt_bytes_def decrypt_private_succeeded [OF that ne])
  moreover have "derivation_succeeded (snd (ready s)) (map Some svcs)"
    using assms(2) by (rule succeeded_after_ready)
  ultimately show ?thesis
    using enc c(3,4) by simp
qed

text \<open>
  C1. With collaborators that keep their contract, every valid ChainSpec constructs an
  instance, and at any point in the life of that instance (after any calls), encrypting a
  byte sequence succeeds and decrypting the result, then or after any further calls,
  gives the byte sequence back.
\<close>

theorem encrypt_then_decrypt_is_identity:
  assumes "derivation_contract E" "cipher_contract E" "valid_ChainSpec keys opts"
  shows "\<exists>s0 w1. SymmetricCryptorBasic_new E keys opts w0 = (Inr s0, w1) \<and>
           (\<forall>cs cs' p.
              \<exists>c. fst (encrypt_bytes E (fst (run_calls E cs (s0, w1))) p
                         (snd (run_calls E cs (s0, w1)))) = Inr c \<and>
                  fst (decrypt_bytes E
                         (fst (run_calls E cs'
                            (snd (encrypt_bytes E (fst (run_calls E cs (s0, w1))) p
                               (snd (run_calls E cs (s0, w1))))))) c) = Inr p)"
proof -
  obtain s0 w1 svcs where new: "SymmetricCryptorBasic_new E keys opts w0 = (Inr s0, w1)"
    and ok: "derivation_succeeded s0 (map Some svcs)" "svcs \<noteq> []" "list_all wf_service svcs"
    using valid_ChainSpec_constructs [OF assms(1,3)] by blast
  have "\<exists>c. fst (encrypt_bytes E (fst (run_calls E cs (s0, w1))) p
                         (snd (run_calls E cs (s0, w1)))) = Inr c \<and>
                  fst (decrypt_bytes E
                         (fst (run_calls E cs'
                            (snd (encrypt_bytes E (fst (run_calls E cs (s0, w1))) p
                               (snd (run_calls E cs (s0, w1))))))) c) = Inr p" for cs cs' p
  proof -
    let ?s = "fst (run_calls E cs (s0, w1))" and ?w = "snd (run_calls E cs (s0, w1))"
    have s: "derivation_succeeded ?s (map Some svcs)"
      using ok(1) by (rule run_calls_succeeded)
    obtain c where c: "fst (encrypt_bytes E ?s p ?w) = Inr c"
      "derivation_succeeded (fst (snd (encrypt_bytes E ?s p ?w))) (map Some svcs)"
      "\<forall>s'. derivation_succeeded s' (map Some svcs) \<longrightarrow> fst (decrypt_bytes E s' c) = Inr p"
      using succeeded_roundtrip [OF assms(2) s ok(2,3), of p ?w] by blast
    have "derivation_succeeded
        (fst (run_calls E cs' (fst (snd (encrypt_bytes E ?s p ?w)),
                               snd (snd (encrypt_bytes E ?s p ?w))))) (map Some svcs)"
      using c(2) by (rule run_calls_succeeded)
    then have "fst (decrypt_bytes E (fst (run_calls E cs' (snd (encrypt_bytes E ?s p ?w)))) c)
        = Inr p"
      using c(3) by simp
    with c(1) show ?thesis
      by blast
  qed
  with new show ?thesis
    by blast
qed

lemma demo_derivation_contract: "derivation_contract demo_env"
  by (auto simp add: derivation_contract_def demo_env_def)

lemma demo_cipher_contract: "cipher_contract demo_env"
  by (simp add: cipher_contract_def demo_env_def demo_decrypt_def)


lemma demo_list_valid: "valid_ChainSpec demo_list no_options"
  by (simp add: valid_ChainSpec_def demo_list_def no_options_def valid_coder_def
      valid_KeySpec_def)

theorem encrypt_then_decrypt_is_identity_witness:
  "derivation_contract demo_env \<and> cipher_contract demo_env \<and>
   valid_ChainSpec demo_list no_options \<and>
   fst (SymmetricCryptorBasic_new demo_env demo_list no_options demo_world)
     = Inr (demo_instance demo_list no_options) \<and>
   (\<exists>c. fst (encrypt_bytes demo_env (demo_instance demo_list no_options) [1, 2, 3]
               (snd (SymmetricCryptorBasic_new demo_env demo_list no_options demo_world)))
          = Inr c \<and>
        fst (decrypt_bytes demo_env
               (fst (snd (encrypt_bytes demo_env (demo_instance demo_list no_options) [1, 2, 3]
                  (snd (SymmetricCryptorBasic_new demo_env demo_list no_options demo_world)))))
               c)
          = Inr [1, 2, 3]) \<and>
   fst (encrypt_bytes demo_env (demo_instance demo_list no_options) [1, 2, 3]
          (snd (SymmetricCryptorBasic_new demo_env demo_list no_options demo_world)))
     = Inr [12, 13, 14, 15, 16, 17, 18, 19, 20, 21, 22, 23, 24, 25, 26, 27, 1,
            0, 1, 2, 3, 4, 5, 6, 7, 8, 9, 10, 11, 1, 1, 2, 3]"
proof -
  let ?new = "SymmetricCryptorBasic_new demo_env demo_list no_options demo_world"
  obtain s0 w1 where new: "?new = (Inr s0, w1)"
    and all: "\<forall>cs cs' p.
              \<exists>c. fst (encrypt_bytes demo_env (fst (run_calls demo_env cs (s0, w1))) p
                         (snd (run_calls demo_env cs (s0, w1)))) = Inr c \<and>
                  fst (decrypt_bytes demo_env
                         (fst (run_calls demo_env cs'
                            (snd (encrypt_bytes demo_env (fst (run_calls demo_env cs (s0, w1))) p
                               (snd (run_calls demo_env cs (s0, w1))))))) c) = Inr p"
    using encrypt_then_decrypt_is_identity
      [OF demo_derivation_contract demo_cipher_contract demo_list_valid, of demo_world]
    by blast
  from new have s0: "s0 = demo_instance demo_list no_options" and w1: "w1 = snd ?new"
    by (simp_all add: demo_instance_def)
  from all [rule_format, of "[]" "[1, 2, 3]" "[]"]
  have trip: "\<exists>c. fst (encrypt_bytes demo_env s0 [1, 2, 3] w1) = Inr c \<and>
      fst (decrypt_bytes demo_env (fst (snd (encrypt_bytes demo_env s0 [1, 2, 3] w1))) c)
        = Inr [1, 2, 3]"
    by (simp add: prod.case_eq_if)
  have blob: "fst (encrypt_bytes demo_env (demo_instance demo_list no_options) [1, 2, 3] (snd ?new))
     = Inr [12, 13, 14, 15, 16, 17, 18, 19, 20, 21, 22, 23, 24, 25, 26, 27, 1,
            0, 1, 2, 3, 4, 5, 6, 7, 8, 9, 10, 11, 1, 1, 2, 3]"
    by code_simp
  have made: "fst ?new = Inr (demo_instance demo_list no_options)"
    using new s0 by simp
  show ?thesis
    using demo_derivation_contract demo_cipher_contract demo_list_valid made trip blob
    unfolding s0 w1 by simp
qed

section \<open>The empty input\<close>





section \<open>A failed key derivation\<close>

text \<open>
  C10. On an instance whose key derivation has failed with an error, \<open>decrypt\<close> of the
  empty byte sequence raises that error, and so does \<open>decrypt\<close> of a string that the
  coder decodes to the empty byte sequence: the readiness step comes before the test for
  the empty input.
\<close>

theorem empty_decrypt_raises_derivation_error:
  assumes "derivation_failed s e"
  shows "decrypt_bytes E s [] = (Inl e, snd (ready s)) \<and>
         (cipherTextDecoder s t = Inr [] \<longrightarrow> fst (decrypt_string E s t) = Inl e)"
  using assms by (simp add: decrypt_bytes_def decrypt_string_def decrypt_private_failed)

theorem empty_decrypt_raises_derivation_error_witness:
  "derivation_failed (demo_instance demo_bad_list no_options)
     (RangeError_algorithm ''aes-cbc'' algorithms) \<and>
   cipherTextDecoder (demo_instance demo_bad_list no_options) [] = Inr [] \<and>
   fst (decrypt_bytes demo_env (demo_instance demo_bad_list no_options) [])
     = Inl (RangeError_algorithm ''aes-cbc'' algorithms) \<and>
   fst (decrypt_string demo_env (demo_instance demo_bad_list no_options) [])
     = Inl (RangeError_algorithm ''aes-cbc'' algorithms) \<and>
   derivation_failed (snd (ready (demo_instance demo_bad_list no_options)))
     (RangeError_algorithm ''aes-cbc'' algorithms) \<and>
   fst (decrypt_bytes demo_env (snd (ready (demo_instance demo_bad_list no_options))) [])
     = Inl (RangeError_algorithm ''aes-cbc'' algorithms)"
proof -
  let ?s = "demo_instance demo_bad_list no_options"
  let ?e = "RangeError_algorithm ''aes-cbc'' algorithms"
  have failed: "derivation_failed ?s ?e"
    by code_simp
  have failed': "derivation_failed (snd (ready ?s)) ?e"
    by code_simp
  have empty: "cipherTextDecoder ?s [] = Inr []"
    by code_simp
  show ?thesis
    using failed failed' empty
      empty_decrypt_raises_derivation_error [OF failed, of demo_env "[]"]
      empty_decrypt_raises_derivation_error [OF failed', of demo_env "[]"]
    by simp
qed

lemma map_create_append_world:
  "snd (map_create E (xs @ ys) w) = snd (map_create E ys (snd (map_create E xs w)))"
  by (induction xs arbitrary: w) (simp_all add: case_prod_beta Let_def)

lemma decodable_after_calls:
  "decodable (fst (run_calls E cs (s0, w1))) c = decodable s0 c"
  by (cases c) (simp_all add: decodable_def run_calls_keeps_decoder)

lemma rejected_promise_is_replayed:
  assumes "keysToCryptoKeysPromise s0 = Some (Inl e)" "decodable s0 c"
  shows "fst (perform E c (run_calls E cs (s0, w1))) = Inl e"
proof -
  have "derivation_failed (fst (run_calls E cs (s0, w1))) e"
    using assms(1) by (intro run_calls_failed constructed_failed)
  moreover have "decodable (fst (run_calls E cs (s0, w1))) c"
    using assms(2) by (simp add: decodable_after_calls)
  ultimately show ?thesis
    using perform_failed_result [of "fst (run_calls E cs (s0, w1))" e c E
        "snd (run_calls E cs (s0, w1))"]
    by simp
qed

lemma first_invalid_tag_rejects_all:
  assumes "\<not> valid_KeySpec (KeyInput (Some a) key)" "list_all valid_KeySpec before"
  shows "Promise_all (fst (map_create E (before @ KeyInput (Some a) key # after) w))
           = Inl (RangeError_algorithm a algorithms)"
    and "derivations (snd (map_create E (before @ KeyInput (Some a) key # after) w))
           \<le> derivations w + length before + length after"
proof -
  let ?e = "RangeError_algorithm a algorithms"
  let ?k = "KeyInput (Some a) key"
  let ?w' = "snd (map_create E before w)"
  have "fst (map_create E (before @ ?k # after) w) =
      fst (map_create E before w) @ RejectedAtCall ?e # fst (map_create E after ?w')"
    using create_invalid [OF assms(1), of E ?w']
    by (simp add: map_create_append map_create_Cons del: map_create.simps)
  then have "first_rejected_at_call (fst (map_create E (before @ ?k # after) w)) = Some ?e"
    using first_rejected_at_call_append [OF map_create_valid_later [OF assms(2)]] by simp
  then show "Promise_all (fst (map_create E (before @ ?k # after) w)) = Inl ?e"
    by (rule Promise_all_rejected_at_call)
  have "snd (map_create E (before @ ?k # after) w) = snd (map_create E after ?w')"
    using create_invalid [OF assms(1), of E ?w']
    by (simp add: map_create_append_world map_create_Cons del: map_create.simps)
  then show "derivations (snd (map_create E (before @ ?k # after) w))
      \<le> derivations w + length before + length after"
    using map_create_derivations [of E after ?w'] map_create_derivations [of E before w]
    by simp
qed

text \<open>
  What the instance does with such a key. With a valid coder option the constructor
  returns an instance whose key-derivation promise is rejected with the RangeError of the
  first KeySpec of the chain whose tag is none of the three, whatever the derivations of
  the other keys do, and every call on it whose own text decoding succeeds raises that
  error.
\<close>

lemma invalid_algorithm_is_replayed:
  assumes "\<not> valid_KeySpec (KeyInput (Some a) key)"
    and "valid_coder (opt_cipherTextCoder opts)"
  shows "valid_times (opt_times opts) \<Longrightarrow>
           \<exists>s0. SymmetricCryptorBasic_new E (SingleKey (KeyInput (Some a) key)) opts w
                  = (Inr s0, w) \<and>
                keysToCryptoKeysPromise s0 = Some (Inl (RangeError_algorithm a algorithms)) \<and>
                (\<forall>cs c. decodable s0 c \<longrightarrow>
                   fst (perform E c (run_calls E cs (s0, w)))
                     = Inl (RangeError_algorithm a algorithms))"
    and "list_all valid_KeySpec before \<Longrightarrow>
           \<exists>s0 w1. SymmetricCryptorBasic_new E
                      (KeyList (before @ KeyInput (Some a) key # after)) opts w
                      = (Inr s0, w1) \<and>
                   keysToCryptoKeysPromise s0 = Some (Inl (RangeError_algorithm a algorithms)) \<and>
                   (\<forall>cs c. decodable s0 c \<longrightarrow>
                      fst (perform E c (run_calls E cs (s0, w1)))
                        = Inl (RangeError_algorithm a algorithms))"
proof -
  let ?e = "RangeError_algorithm a algorithms"
  let ?k = "KeyInput (Some a) key"
  obtain c where c: "resolveCipherTextCoder E (opt_cipherTextCoder opts) = Inr c"
    using assms(2) resolve_valid_coder by blast
  show "\<exists>s0. SymmetricCryptorBasic_new E (SingleKey ?k) opts w = (Inr s0, w) \<and>
                keysToCryptoKeysPromise s0 = Some (Inl ?e) \<and>
                (\<forall>cs c. decodable s0 c \<longrightarrow> fst (perform E c (run_calls E cs (s0, w))) = Inl ?e)"
    if t: "valid_times (opt_times opts)"
  proof -
    obtain s0 where new: "SymmetricCryptorBasic_new E (SingleKey ?k) opts w = (Inr s0, w)"
      using c t create_invalid [OF assms(1), of E w]
      by (cases "opt_times opts") (auto simp add: new_SingleKey valid_times_iff)
    then have "keysToCryptoKeysPromise s0 = Some (Inl ?e)"
      using constructed_single(1) [OF new] create_invalid [OF assms(1), of E w]
      by (simp add: Promise_all_def)
    with rejected_promise_is_replayed new show ?thesis
      by blast
  qed
  show "\<exists>s0 w1. SymmetricCryptorBasic_new E (KeyList (before @ ?k # after)) opts w
                      = (Inr s0, w1) \<and>
                   keysToCryptoKeysPromise s0 = Some (Inl ?e) \<and>
                   (\<forall>cs c. decodable s0 c \<longrightarrow>
                      fst (perform E c (run_calls E cs (s0, w1))) = Inl ?e)"
    if b: "list_all valid_KeySpec before"
  proof -
    obtain s0 w1 where new:
      "SymmetricCryptorBasic_new E (KeyList (before @ ?k # after)) opts w = (Inr s0, w1)"
      using c by (auto simp add: new_KeyList)
    have "keysToCryptoKeysPromise s0 = Some (Inl ?e)"
      using constructed_list(2) [OF new] first_invalid_tag_rejects_all(1) [OF assms(1) b]
      by simp
    with rejected_promise_is_replayed new show ?thesis
      by blast
  qed
qed




section \<open>The file operations\<close>

text \<open>
  C9. In \<open>decryptFileInPlace\<close>, \<open>encryptFileInPlace\<close> and \<open>writeEncryptedFile\<close>, of
  \<open>SymmetricCryptor\<close> and of \<open>SymmetricCryptorEnhance\<close> alike: when the decrypt or
  encrypt step fails, the operation fails with that error and the file system is the one
  it started with, whatever \<open>Deno.writeFile\<close> would do; when the step succeeds, the
  outcome and the file system are those of one \<open>Deno.writeFile\<close> of the step's output.
\<close>

theorem file_written_only_after_crypto_succeeds:
  "(deno_readFile E path fs = Inr content \<longrightarrow>
      (fst (decrypt_bytes E s content) = Inl e \<longrightarrow>
         SymmetricCryptor_decryptFileInPlace E s path fs
           = (Inl e, snd (decrypt_bytes E s content), fs) \<and>
         SymmetricCryptorEnhance_decryptFileInPlace E s path fs
           = (Inl e, snd (decrypt_bytes E s content), fs)) \<and>
      (fst (decrypt_bytes E s content) = Inr out \<longrightarrow>
         SymmetricCryptor_decryptFileInPlace E s path fs
           = (fst (deno_writeFile E path out create_false fs), snd (decrypt_bytes E s content),
              snd (deno_writeFile E path out create_false fs)) \<and>
         SymmetricCryptorEnhance_decryptFileInPlace E s path fs
           = SymmetricCryptor_decryptFileInPlace E s path fs) \<and>
      (fst (encrypt_bytes E s content w) = Inl e \<longrightarrow>
         SymmetricCryptor_encryptFileInPlace E s path w fs
           = (Inl e, fst (snd (encrypt_bytes E s content w)),
              snd (snd (encrypt_bytes E s content w)), fs) \<and>
         SymmetricCryptorEnhance_encryptFileInPlace E s path w fs
           = (Inl e, fst (snd (encrypt_bytes E s content w)),
              snd (snd (encrypt_bytes E s content w)), fs)) \<and>
      (fst (encrypt_bytes E s content w) = Inr out \<longrightarrow>
         SymmetricCryptor_encryptFileInPlace E s path w fs
           = (fst (deno_writeFile E path out create_false fs),
              fst (snd (encrypt_bytes E s content w)), snd (snd (encrypt_bytes E s content w)),
              snd (deno_writeFile E path out create_false fs)) \<and>
         SymmetricCryptorEnhance_encryptFileInPlace E s path w fs
           = SymmetricCryptor_encryptFileInPlace E s path w fs)) \<and>
   (fst (encrypt_bytes E s data w) = Inl e \<longrightarrow>
      SymmetricCryptor_writeEncryptedFile E s path data opts w fs
        = (Inl e, fst (snd (encrypt_bytes E s data w)), snd (snd (encrypt_bytes E s data w)), fs) \<and>
      SymmetricCryptorEnhance_writeEncryptedFile E s path data opts w fs
        = (Inl e, fst (snd (encrypt_bytes E s data w)), snd (snd (encrypt_bytes E s data w)), fs)) \<and>
   (fst (encrypt_bytes E s data w) = Inr out \<longrightarrow>
      SymmetricCryptor_writeEncryptedFile E s path data opts w fs
        = (fst (deno_writeFile E path out (append_false opts) fs),
           fst (snd (encrypt_bytes E s data w)), snd (snd (encrypt_bytes E s data w)),
           snd (deno_writeFile E path out (append_false opts) fs)) \<and>
      SymmetricCryptorEnhance_writeEncryptedFile E s path data opts w fs
        = SymmetricCryptor_writeEncryptedFile E s path data opts w fs)"
proof -
  have dec: "SymmetricCryptor_decryptFileInPlace E s path fs =
      (case fst (decrypt_bytes E s content) of
         Inl e \<Rightarrow> (Inl e, snd (decrypt_bytes E s content), fs)
       | Inr out \<Rightarrow> (fst (deno_writeFile E path out create_false fs),
                     snd (decrypt_bytes E s content),
                     snd (deno_writeFile E path out create_false fs)))"
    and dec': "SymmetricCryptorEnhance_decryptFileInPlace E s path fs =
      SymmetricCryptor_decryptFileInPlace E s path fs"
    if "deno_readFile E path fs = Inr content"
    using that
    by (simp_all add: SymmetricCryptor_decryptFileInPlace_def
        SymmetricCryptorEnhance_decryptFileInPlace_def case_prod_beta split: sum.splits)
  have enc: "SymmetricCryptor_encryptFileInPlace E s path w fs =
      (case fst (encrypt_bytes E s content w) of
         Inl e \<Rightarrow> (Inl e, fst (snd (encrypt_bytes E s content w)),
                   snd (snd (encrypt_bytes E s content w)), fs)
       | Inr out \<Rightarrow> (fst (deno_writeFile E path out create_false fs),
                     fst (snd (encrypt_bytes E s content w)),
                     snd (snd (encrypt_bytes E s content w)),
                     snd (deno_writeFile E path out create_false fs)))"
    and enc': "SymmetricCryptorEnhance_encryptFileInPlace E s path w fs =
      SymmetricCryptor_encryptFileInPlace E s path w fs"
    if "deno_readFile E path fs = Inr content"
    using that
    by (simp_all add: SymmetricCryptor_encryptFileInPlace_def
        SymmetricCryptorEnhance_encryptFileInPlace_def case_prod_beta split: sum.splits)
  have wr: "SymmetricCryptor_writeEncryptedFile E s path data opts w fs =
      (case fst (encrypt_bytes E s data w) of
         Inl e \<Rightarrow> (Inl e, fst (snd (encrypt_bytes E s data w)),
                   snd (snd (encrypt_bytes E s data w)), fs)
       | Inr out \<Rightarrow> (fst (deno_writeFile E path out (append_false opts) fs),
                     fst (snd (encrypt_bytes E s data w)),
                     snd (snd (encrypt_bytes E s data w)),
                     snd (deno_writeFile E path out (append_false opts) fs)))"
    and wr': "SymmetricCryptorEnhance_writeEncryptedFile E s path data opts w fs =
      SymmetricCryptor_writeEncryptedFile E s path data opts w fs"
    by (simp_all add: SymmetricCryptor_writeEncryptedFile_def
        SymmetricCryptorEnhance_writeEncryptedFile_def case_prod_beta split: sum.splits)
  show ?thesis
    using dec dec' enc enc' wr wr' by simp
qed

theorem file_written_only_after_crypto_succeeds_witness:
  "deno_readFile demo_env ''f'' [''f'' \<mapsto> [1, 2, 3]] = Inr [1, 2, 3] \<and>
   fst (decrypt_bytes demo_env (demo_instance demo_list no_options) [1, 2, 3])
     = Inl (External ''OperationError'') \<and>
   fst (SymmetricCryptor_decryptFileInPlace demo_env (demo_instance demo_list no_options)
          ''f'' [''f'' \<mapsto> [1, 2, 3]])
     = Inl (External ''OperationError'') \<and>
   snd (snd (SymmetricCryptor_decryptFileInPlace demo_env (demo_instance demo_list no_options)
          ''f'' [''f'' \<mapsto> [1, 2, 3]]))
     = [''f'' \<mapsto> [1, 2, 3]] \<and>
   snd (snd (SymmetricCryptorEnhance_decryptFileInPlace demo_env
          (demo_instance demo_list no_options) ''f'' [''f'' \<mapsto> [1, 2, 3]]))
     = [''f'' \<mapsto> [1, 2, 3]] \<and>
   fst (encrypt_bytes demo_env (demo_instance demo_bad_list no_options) [1, 2, 3] demo_world)
     = Inl (RangeError_algorithm ''aes-cbc'' algorithms) \<and>
   fst (SymmetricCryptor_encryptFileInPlace demo_env (demo_instance demo_bad_list no_options)
          ''f'' demo_world [''f'' \<mapsto> [1, 2, 3]])
     = Inl (RangeError_algorithm ''aes-cbc'' algorithms) \<and>
   snd (snd (snd (SymmetricCryptor_encryptFileInPlace demo_env
          (demo_instance demo_bad_list no_options) ''f'' demo_world [''f'' \<mapsto> [1, 2, 3]])))
     = [''f'' \<mapsto> [1, 2, 3]] \<and>
   snd (snd (snd (SymmetricCryptorEnhance_encryptFileInPlace demo_env
          (demo_instance demo_bad_list no_options) ''f'' demo_world [''f'' \<mapsto> [1, 2, 3]])))
     = [''f'' \<mapsto> [1, 2, 3]] \<and>
   snd (snd (snd (SymmetricCryptor_writeEncryptedFile demo_env
          (demo_instance demo_bad_list no_options) ''f'' [1, 2, 3] None demo_world
          [''f'' \<mapsto> [1, 2, 3]])))
     = [''f'' \<mapsto> [1, 2, 3]] \<and>
   snd (snd (snd (SymmetricCryptorEnhance_writeEncryptedFile demo_env
          (demo_instance demo_bad_list no_options) ''f'' [1, 2, 3] None demo_world
          [''f'' \<mapsto> [1, 2, 3]])))
     = [''f'' \<mapsto> [1, 2, 3]] \<and>
   fst (encrypt_bytes demo_env (demo_instance (SingleKey (Bare (KeyString ''b''))) no_options)
          [1, 2, 3] demo_world)
     = Inr [0, 1, 2, 3, 4, 5, 6, 7, 8, 9, 10, 11, 12, 13, 14, 15, 1, 1, 2, 3] \<and>
   snd (snd (snd (SymmetricCryptor_encryptFileInPlace demo_env
          (demo_instance (SingleKey (Bare (KeyString ''b''))) no_options) ''f'' demo_world
          [''f'' \<mapsto> [1, 2, 3]])))
     = [''f'' \<mapsto> [0, 1, 2, 3, 4, 5, 6, 7, 8, 9, 10, 11, 12, 13, 14, 15, 1, 1, 2, 3]]"
proof -
  let ?fs = "[''f'' \<mapsto> [1, 2, 3 :: byte]]"
  let ?good = "demo_instance demo_list no_options"
  let ?bad = "demo_instance demo_bad_list no_options"
  let ?one = "demo_instance (SingleKey (Bare (KeyString ''b''))) no_options"
  let ?blob = "[0, 1, 2, 3, 4, 5, 6, 7, 8, 9, 10, 11, 12, 13, 14, 15, 1, 1, 2, 3 :: byte]"
  have read: "deno_readFile demo_env ''f'' ?fs = Inr [1, 2, 3]"
    by (simp add: demo_env_def)
  have dec: "fst (decrypt_bytes demo_env ?good [1, 2, 3]) = Inl (External ''OperationError'')"
    by code_simp
  have enc: "fst (encrypt_bytes demo_env ?bad [1, 2, 3] demo_world)
      = Inl (RangeError_algorithm ''aes-cbc'' algorithms)"
    by code_simp
  have enc_ok: "fst (encrypt_bytes demo_env ?one [1, 2, 3] demo_world) = Inr ?blob"
    by code_simp
  have written: "snd (deno_writeFile demo_env ''f'' ?blob create_false ?fs) = [''f'' \<mapsto> ?blob]"
    by (simp add: demo_env_def demo_write_def create_false_def)
  note a = file_written_only_after_crypto_succeeds
    [of demo_env "''f''" ?fs "[1, 2, 3]" ?good "External ''OperationError''" _ demo_world]
  note b = file_written_only_after_crypto_succeeds
    [of demo_env "''f''" ?fs "[1, 2, 3]" ?bad "RangeError_algorithm ''aes-cbc'' algorithms" _
        demo_world "[1, 2, 3]" None]
  note c = file_written_only_after_crypto_succeeds
    [of demo_env "''f''" ?fs "[1, 2, 3]" ?one _ ?blob demo_world]
  have r1: "fst (SymmetricCryptor_decryptFileInPlace demo_env ?good ''f'' ?fs)
        = Inl (External ''OperationError'')"
      "snd (snd (SymmetricCryptor_decryptFileInPlace demo_env ?good ''f'' ?fs)) = ?fs"
      "snd (snd (SymmetricCryptorEnhance_decryptFileInPlace demo_env ?good ''f'' ?fs)) = ?fs"
    using a read dec by simp_all
  have r2: "fst (SymmetricCryptor_encryptFileInPlace demo_env ?bad ''f'' demo_world ?fs)
        = Inl (RangeError_algorithm ''aes-cbc'' algorithms)"
      "snd (snd (snd (SymmetricCryptor_encryptFileInPlace demo_env ?bad ''f'' demo_world ?fs))) = ?fs"
      "snd (snd (snd (SymmetricCryptorEnhance_encryptFileInPlace demo_env ?bad ''f'' demo_world ?fs)))
        = ?fs"
      "snd (snd (snd (SymmetricCryptor_writeEncryptedFile demo_env ?bad ''f'' [1, 2, 3] None
         demo_world ?fs))) = ?fs"
      "snd (snd (snd (SymmetricCryptorEnhance_writeEncryptedFile demo_env ?bad ''f'' [1, 2, 3] None
         demo_world ?fs))) = ?fs"
    using b read enc by simp_all
  have r3: "snd (snd (snd (SymmetricCryptor_encryptFileInPlace demo_env ?one ''f'' demo_world ?fs)))
        = [''f'' \<mapsto> ?blob]"
    using c read enc_ok written by simp
  show ?thesis
    using read dec enc enc_ok r1 r2 r3 by simp
qed

end
